theory Spec2Isabelle
  imports Complex_Main "HOL-Library.Multiset"
begin

section \<open>The Adaline classifier of mlxtend (classifier/adaline.py)\<close>

text \<open>
  The embedding follows \<^verbatim>\<open>class Adaline\<close> method by method. numpy's float64 values are
  idealised as \<^typ>\<open>real\<close>; a one-dimensional array is a list, a two-dimensional array is
  its list of rows together with its number of columns (which numpy knows even when there
  are no rows). Every exception the Python can raise is a constructor of \<open>error\<close>, and an
  outcome carries the instance as it stands when the exception leaves \<^verbatim>\<open>fit\<close>, because
  \<^verbatim>\<open>fit\<close> assigns attributes of \<^verbatim>\<open>self\<close> before it is done checking. The attributes
  \<^verbatim>\<open>classes_\<close>, \<^verbatim>\<open>thres_\<close>, \<^verbatim>\<open>w_\<close> and \<^verbatim>\<open>cost_\<close> are the fields \<open>classes_attr\<close>, \<open>thres_attr\<close>,
  \<open>w_attr\<close> and \<open>cost_attr\<close> (a name cannot end with an underscore here); each is \<open>None\<close>
  until an assignment creates it.
\<close>

subsection \<open>Data\<close>

type_synonym vec = "real list"

datatype ndarray =
    Rank2 nat "vec list"   \<comment> \<open>shape (number of rows, number of columns): the columns, the rows\<close>
  | RankOther "nat list"   \<comment> \<open>an array whose shape has not two entries; only its shape matters\<close>

datatype error =
    InvalidSolver       \<comment> \<open>ValueError('learning must be "normal equation", "gd", or "sgd')\<close>
  | ShapeError          \<comment> \<open>ValueError('X must be a 2D array. Try X[:,np.newaxis]')\<close>
  | LabelDomainError    \<comment> \<open>ValueError('Only supports binary class labels {0, 1} or {-1, 1}.')\<close>
  | LinAlgError         \<comment> \<open>numpy.linalg.LinAlgError('Singular matrix')\<close>
  | DimensionMismatch   \<comment> \<open>numpy's ValueError: shapes not aligned, operands not broadcastable\<close>
  | IndexError          \<comment> \<open>index out of bounds\<close>
  | AttributeError      \<comment> \<open>an attribute of self that no fit has assigned yet\<close>

datatype solver = NormalEquation | GD | SGD

record adaline =
  eta :: real
  epochs :: int
  shuffle :: bool
  solver :: solver
  zero_init_weight :: bool
  classes_attr :: "vec option"
  thres_attr :: "real option"
  w_attr :: "vec option"
  cost_attr :: "real list option"

text \<open>
  The functions of numpy that the class calls and that are not arithmetic on arrays are
  parameters: the global generator's state is a value of type \<open>'g\<close>, threaded through
  every call that draws from it.
\<close>

record 'g numpy =
  seed :: "int option \<Rightarrow> 'g \<Rightarrow> 'g"                  \<comment> \<open>np.random.seed\<close>
  ranf :: "'g \<Rightarrow> nat \<Rightarrow> vec \<times> 'g"                   \<comment> \<open>np.random.ranf(shape)\<close>
  permutation :: "'g \<Rightarrow> nat \<Rightarrow> nat list \<times> 'g"      \<comment> \<open>np.random.permutation(n)\<close>
  linalg_inv :: "vec list \<Rightarrow> vec list option"       \<comment> \<open>np.linalg.inv on a square matrix;
                                                       \<open>None\<close> when it raises LinAlgError\<close>

datatype 'g outcome =
    Raises error adaline 'g
  | Returns adaline 'g

subsection \<open>Array arithmetic\<close>

definition np_unique :: "vec \<Rightarrow> vec" where
  \<comment> \<open>np.unique: the distinct values, ascending\<close>
  "np_unique y = sort (remdups y)"

definition dotp :: "vec \<Rightarrow> vec \<Rightarrow> real" where
  "dotp a b = sum_list (map2 (*) a b)"

definition np_dot_vv :: "vec \<Rightarrow> vec \<Rightarrow> error + real" where
  \<comment> \<open>np.dot of two one-dimensional arrays\<close>
  "np_dot_vv a b = (if length a = length b then Inr (dotp a b) else Inl DimensionMismatch)"

definition np_dot_mv :: "nat \<Rightarrow> vec list \<Rightarrow> vec \<Rightarrow> error + vec" where
  \<comment> \<open>np.dot of an array with \<open>n\<close> columns and a one-dimensional array\<close>
  "np_dot_mv n rs v =
     (if n = length v then Inr (map (\<lambda>r. dotp r v) rs) else Inl DimensionMismatch)"

definition np_sub :: "vec \<Rightarrow> vec \<Rightarrow> error + vec" where
  \<comment> \<open>\<open>a - b\<close> on one-dimensional arrays, with numpy's broadcasting of a length-1 operand\<close>
  "np_sub a b =
     (if length a = length b then Inr (map2 (-) a b)
      else if length b = 1 then Inr (map (\<lambda>x. x - b ! 0) a)
      else if length a = 1 then Inr (map (\<lambda>x. a ! 0 - x) b)
      else Inl DimensionMismatch)"

definition transpose_m :: "nat \<Rightarrow> vec list \<Rightarrow> vec list" where
  \<comment> \<open>\<open>X.T\<close> for an array with \<open>n\<close> columns: \<open>n\<close> rows, also when \<open>X\<close> has no row\<close>
  "transpose_m n rs = map (\<lambda>j. map (\<lambda>r. r ! j) rs) [0..<n]"

definition np_dot_mm :: "vec list \<Rightarrow> nat \<Rightarrow> vec list \<Rightarrow> vec list" where
  \<comment> \<open>np.dot of two two-dimensional arrays, the second with \<open>n\<close> columns\<close>
  "np_dot_mm A n B = map (\<lambda>r. map (\<lambda>c. dotp r c) (transpose_m n B)) A"

subsection \<open>The methods\<close>

definition solver_of :: "string \<Rightarrow> solver option" where
  "solver_of s =
     (if s = ''normal equation'' then Some NormalEquation
      else if s = ''gd'' then Some GD
      else if s = ''sgd'' then Some SGD
      else None)"

definition init :: "'g numpy \<Rightarrow> 'g \<Rightarrow> real \<Rightarrow> int \<Rightarrow> string \<Rightarrow> int option \<Rightarrow> bool \<Rightarrow> bool
                      \<Rightarrow> error \<times> 'g + adaline \<times> 'g" where
  \<comment> \<open>\<open>__init__\<close>: the generator is seeded before the solver is checked\<close>
  "init R g eta0 epochs0 solver0 random_seed shuffle0 zero_init_weight0 =
     (let g' = seed R random_seed g in
      case solver_of solver0 of
        None \<Rightarrow> Inl (InvalidSolver, g')
      | Some sv \<Rightarrow>
          Inr (\<lparr>eta = eta0, epochs = epochs0, shuffle = shuffle0, solver = sv,
                zero_init_weight = zero_init_weight0, classes_attr = None, thres_attr = None,
                w_attr = None, cost_attr = None\<rparr>, g'))"

definition init_weights :: "'g numpy \<Rightarrow> adaline \<Rightarrow> 'g \<Rightarrow> nat \<Rightarrow> adaline \<times> 'g" where
  \<comment> \<open>\<open>_init_weights\<close>; its last line, \<open>self.w_.astype('float64')\<close>, drops its result\<close>
  "init_weights R self g shape =
     (if zero_init_weight self then (self\<lparr>w_attr := Some (replicate shape 0)\<rparr>, g)
      else (let (u, g') = ranf R g shape
            in (self\<lparr>w_attr := Some (map (\<lambda>x. 0.2 * x - 0.5) u)\<rparr>, g')))"

definition shuffle_unison :: "'g numpy \<Rightarrow> 'g \<Rightarrow> vec list \<Rightarrow> vec
                                \<Rightarrow> error \<times> 'g + (vec list \<times> vec) \<times> 'g" where
  \<comment> \<open>\<open>_shuffle\<close>: \<open>X[r], y[r]\<close> for one draw \<open>r\<close> of \<open>permutation(len(y))\<close>\<close>
  "shuffle_unison R g X y =
     (let (r, g') = permutation R g (length y) in
      if (\<forall>i \<in> set r. i < length X) \<and> (\<forall>i \<in> set r. i < length y)
      then Inr ((map (\<lambda>i. X ! i) r, map (\<lambda>i. y ! i) r), g')
      else Inl (IndexError, g'))"

definition normal_equation :: "'g numpy \<Rightarrow> nat \<Rightarrow> vec list \<Rightarrow> vec \<Rightarrow> error + vec" where
  \<comment> \<open>\<open>_normal_equation\<close>; \<open>w = np.zeros(X.shape[1])\<close> is overwritten before it is read\<close>
  "normal_equation R n X y =
     (let Xb = map (\<lambda>r. 1 # r) X;
          XbT = transpose_m (Suc n) Xb
      in case linalg_inv R (np_dot_mm XbT (Suc n) Xb) of
           None \<Rightarrow> Inl LinAlgError
         | Some z \<Rightarrow>
             (case np_dot_mv (length Xb) XbT y of
                Inl e \<Rightarrow> Inl e
              | Inr b \<Rightarrow> Inr (map (\<lambda>r. dotp r b) z)))"

definition net_input_vec :: "vec \<Rightarrow> vec \<Rightarrow> error + real" where
  \<comment> \<open>\<open>net_input\<close> on one sample: \<open>np.dot(xi, w[1:]) + w[0]\<close>\<close>
  "net_input_vec w xi =
     (case np_dot_vv xi (drop 1 w) of
        Inl e \<Rightarrow> Inl e
      | Inr s \<Rightarrow> if w = [] then Inl IndexError else Inr (s + w ! 0))"

definition net_input :: "vec \<Rightarrow> nat \<Rightarrow> vec list \<Rightarrow> error + vec" where
  \<comment> \<open>\<open>net_input\<close> on a two-dimensional array with \<open>n\<close> columns\<close>
  "net_input w n X =
     (case np_dot_mv n X (drop 1 w) of
        Inl e \<Rightarrow> Inl e
      | Inr s \<Rightarrow> if w = [] then Inl IndexError else Inr (map (\<lambda>v. v + w ! 0) s))"

definition activation :: "vec \<Rightarrow> nat \<Rightarrow> vec list \<Rightarrow> error + vec" where
  "activation w n X = net_input w n X"

definition gd_epoch :: "real \<Rightarrow> nat \<Rightarrow> vec list \<Rightarrow> vec \<Rightarrow> vec \<Rightarrow> error + vec \<times> real" where
  \<comment> \<open>the body of \<open>if self.solver == 'gd'\<close>: the new weights and the epoch's cost\<close>
  "gd_epoch et n X y w =
     (case activation w n X of
        Inl e \<Rightarrow> Inl e
      | Inr y_val \<Rightarrow>
          (case np_sub y y_val of
             Inl e \<Rightarrow> Inl e
           | Inr errors \<Rightarrow>
               (case np_dot_mv (length X) (transpose_m n X) errors of
                  Inl e \<Rightarrow> Inl e
                | Inr grad \<Rightarrow>
                    Inr ((w ! 0 + et * sum_list errors)
                           # map2 (+) (drop 1 w) (map (\<lambda>v. et * v) grad),
                         sum_list (map (\<lambda>e. e\<^sup>2) errors) / 2))))"

fun sgd_samples :: "real \<Rightarrow> vec option \<Rightarrow> real \<Rightarrow> (vec \<times> real) list
                      \<Rightarrow> error \<times> vec option + vec option \<times> real" where
  \<comment> \<open>\<open>for xi, yi in zip(X, y)\<close>: the weights are read and written at every sample\<close>
  "sgd_samples et wo cost [] = Inr (wo, cost)"
| "sgd_samples et wo cost ((xi, yi) # rest) =
     (case wo of
        None \<Rightarrow> Inl (AttributeError, None)
      | Some w \<Rightarrow>
          (case net_input_vec w xi of
             Inl e \<Rightarrow> Inl (e, Some w)
           | Inr yi_val \<Rightarrow>
               (let error = yi - yi_val;
                    w' = (w ! 0 + et * error)
                           # map2 (+) (drop 1 w) (map (\<lambda>v. et * (v * error)) xi)
                in sgd_samples et (Some w') (cost + error\<^sup>2 / 2) rest)))"

definition epoch :: "'g numpy \<Rightarrow> adaline \<Rightarrow> 'g \<Rightarrow> nat \<Rightarrow> vec list \<Rightarrow> vec
                       \<Rightarrow> error \<times> adaline \<times> 'g + adaline \<times> 'g \<times> vec list \<times> vec" where
  \<comment> \<open>one pass of \<open>for _ in range(self.epochs)\<close>; \<open>X\<close> and \<open>y\<close> are rebound by the shuffle\<close>
  "epoch R self g n X y =
     (case (if shuffle self then shuffle_unison R g X y else Inr ((X, y), g)) of
        Inl (e, g') \<Rightarrow> Inl (e, self, g')
      | Inr ((X', y'), g') \<Rightarrow>
          (case (if solver self = GD
                 then (case w_attr self of
                         None \<Rightarrow> Inl (AttributeError, None)
                       | Some w \<Rightarrow>
                           (case gd_epoch (eta self) n X' y' w of
                              Inl e \<Rightarrow> Inl (e, Some w)
                            | Inr (w', cost) \<Rightarrow> Inr (Some w', cost)))
                 else sgd_samples (eta self) (w_attr self) 0 (zip X' y')) of
             Inl (e, wo) \<Rightarrow> Inl (e, self\<lparr>w_attr := wo\<rparr>, g')
           | Inr (wo, cost) \<Rightarrow>
               (case cost_attr self of
                  None \<Rightarrow> Inl (AttributeError, self\<lparr>w_attr := wo\<rparr>, g')
                | Some cs \<Rightarrow> Inr (self\<lparr>w_attr := wo, cost_attr := Some (cs @ [cost])\<rparr>, g', X', y'))))"

fun epochs_loop :: "'g numpy \<Rightarrow> nat \<Rightarrow> adaline \<Rightarrow> 'g \<Rightarrow> nat \<Rightarrow> vec list \<Rightarrow> vec \<Rightarrow> 'g outcome" where
  "epochs_loop R 0 self g n X y = Returns self g"
| "epochs_loop R (Suc k) self g n X y =
     (case epoch R self g n X y of
        Inl (e, self', g') \<Rightarrow> Raises e self' g'
      | Inr (self', g', X', y') \<Rightarrow> epochs_loop R k self' g' n X' y')"

definition fit :: "'g numpy \<Rightarrow> adaline \<Rightarrow> 'g \<Rightarrow> ndarray \<Rightarrow> vec \<Rightarrow> bool \<Rightarrow> 'g outcome" where
  "fit R self g X y init_w =
     (case X of
        RankOther sh \<Rightarrow> Raises ShapeError self g
      | Rank2 n rs \<Rightarrow>
          (let cl = np_unique y;
               s1 = self\<lparr>classes_attr := Some cl\<rparr>
           in if length cl \<noteq> 2 \<or> \<not> (cl ! 0 = -1 \<or> cl ! 0 = 0) \<or> cl ! 1 \<noteq> 1
              then Raises LabelDomainError s1 g
              else
                (let s2 = s1\<lparr>thres_attr := Some (if cl ! 0 = -1 then 0 else 0.5)\<rparr>;
                     (s3, g3) = (if init_w then init_weights R s2 g (1 + n) else (s2, g));
                     s4 = s3\<lparr>cost_attr := Some []\<rparr>
                 in if solver s4 = NormalEquation
                    then (case normal_equation R n rs y of
                            Inl e \<Rightarrow> Raises e s4 g3
                          | Inr w \<Rightarrow> Returns (s4\<lparr>w_attr := Some w\<rparr>) g3)
                    else epochs_loop R (nat (epochs s4)) s4 g3 n rs y)))"

definition predict :: "adaline \<Rightarrow> nat \<Rightarrow> vec list \<Rightarrow> error + vec" where
  \<comment> \<open>\<open>predict\<close> on a two-dimensional array with \<open>n\<close> columns; the arguments of
      \<open>np.where\<close> are evaluated from left to right\<close>
  "predict self n X =
     (case w_attr self of
        None \<Rightarrow> Inl AttributeError
      | Some w \<Rightarrow>
          (case net_input w n X of
             Inl e \<Rightarrow> Inl e
           | Inr s \<Rightarrow>
               (case thres_attr self of
                  None \<Rightarrow> Inl AttributeError
                | Some t \<Rightarrow>
                    (case classes_attr self of
                       None \<Rightarrow> Inl AttributeError
                     | Some cl \<Rightarrow>
                         if length cl < 2 then Inl IndexError
                         else Inr (map (\<lambda>v. if v \<ge> t then cl ! 1 else cl ! 0) s)))))"

subsection \<open>Stages of \<open>fit\<close>\<close>

text \<open>
  Names for the instance at two points of \<open>fit\<close>: once the labels have passed the check
  (\<open>classes_\<close> and \<open>thres_\<close> assigned), and when the solver is dispatched (weights
  initialised if asked for, \<open>cost_\<close> emptied).
\<close>

definition validated :: "adaline \<Rightarrow> vec \<Rightarrow> adaline" where
  "validated self y =
     self\<lparr>classes_attr := Some (np_unique y),
          thres_attr := Some (if np_unique y ! 0 = -1 then 0 else 0.5)\<rparr>"

definition prepared :: "'g numpy \<Rightarrow> adaline \<Rightarrow> 'g \<Rightarrow> nat \<Rightarrow> vec \<Rightarrow> bool \<Rightarrow> adaline \<times> 'g" where
  "prepared R self g n y init_w =
     (let (s3, g3) = (if init_w then init_weights R (validated self y) g (1 + n)
                      else (validated self y, g))
      in (s3\<lparr>cost_attr := Some []\<rparr>, g3))"

subsection \<open>A small numpy for concrete runs\<close>

text \<open>
  The concrete runs below need values for the library parameters: a generator state that
  is a counter, draws that are multiples of a quarter, the reversing permutation, and the
  inverse of matrices of one or two rows by the adjugate formula.
\<close>

definition inv_small :: "vec list \<Rightarrow> vec list option" where
  "inv_small A =
     (case A of
        [[a]] \<Rightarrow> if a = 0 then None else Some [[1 / a]]
      | [[a, b], [c, d]] \<Rightarrow>
          (let dt = a * d - b * c
           in if dt = 0 then None else Some [[d / dt, - b / dt], [- c / dt, a / dt]])
      | _ \<Rightarrow> None)"

definition demo_numpy :: "nat numpy" where
  "demo_numpy =
     \<lparr>seed = (\<lambda>s g. case s of None \<Rightarrow> g | Some k \<Rightarrow> nat \<bar>k\<bar>),
      ranf = (\<lambda>g n. (map (\<lambda>i. real ((g + i) mod 4) / 4) [0..<n], g + n)),
      permutation = (\<lambda>g n. (rev [0..<n], Suc g)),
      linalg_inv = inv_small\<rparr>"

definition demo :: "solver \<Rightarrow> adaline" where
  "demo sv =
     \<lparr>eta = 1 / 10, epochs = 2, shuffle = True, solver = sv, zero_init_weight = True,
      classes_attr = None, thres_attr = None, w_attr = None, cost_attr = None\<rparr>"

definition demo_sgd :: adaline where
  "demo_sgd =
     \<lparr>eta = 1 / 2, epochs = 2, shuffle = True, solver = SGD, zero_init_weight = False,
      classes_attr = None, thres_attr = None, w_attr = None, cost_attr = None\<rparr>"

text \<open>The instance that \<open>fit\<close> with the normal equation leaves on the features \<open>[[0], [1]]\<close>
  and the targets \<open>[0, 1]\<close>.\<close>

definition demo_fitted :: adaline where
  "demo_fitted =
     \<lparr>eta = 1 / 10, epochs = 2, shuffle = True, solver = NormalEquation,
      zero_init_weight = True, classes_attr = Some [0, 1], thres_attr = Some (1 / 2),
      w_attr = Some [0, 1], cost_attr = Some []\<rparr>"

text \<open>The instance that two epochs of gd leave on the features \<open>[[0], [1], [2], [3]]\<close> and
  the targets \<open>[-1, -1, 1, 1]\<close>.\<close>

definition demo_trained :: adaline where
  "demo_trained =
     \<lparr>eta = 1 / 10, epochs = 2, shuffle = True, solver = GD, zero_init_weight = True,
      classes_attr = Some [-1, 1], thres_attr = Some 0, w_attr = Some [- (6 / 25), 6 / 25],
      cost_attr = Some [2, 38 / 25]\<rparr>"

text \<open>The instance that \<open>fit\<close> leaves when \<open>epochs\<close> is 0, with gd, on the features
  \<open>[[0], [1]]\<close> and the targets \<open>[0, 1]\<close>: the initial weights and no cost.\<close>

definition demo_idle :: adaline where
  "demo_idle =
     \<lparr>eta = 1 / 10, epochs = 0, shuffle = True, solver = GD, zero_init_weight = True,
      classes_attr = Some [0, 1], thres_attr = Some (1 / 2), w_attr = Some [0, 0],
      cost_attr = Some []\<rparr>"

subsection \<open>What numpy promises\<close>

text \<open>
  The library parameters are arbitrary functions; where a property of the class rests on
  what numpy documents for them, the property is stated under these contracts:
  \<open>ranf(k)\<close> returns \<open>k\<close> numbers of the half-open interval from 0 to 1,
  \<open>permutation(k)\<close> returns a permutation of \<open>0, ..., k - 1\<close>, and a matrix that
  \<open>linalg.inv\<close> returns is a two-sided inverse of its argument, of the same shape.
\<close>

definition ranf_contract :: "'g numpy \<Rightarrow> bool" where
  "ranf_contract R \<longleftrightarrow>
     (\<forall>g k. length (fst (ranf R g k)) = k \<and> (\<forall>u \<in> set (fst (ranf R g k)). 0 \<le> u \<and> u < 1))"

definition permutation_contract :: "'g numpy \<Rightarrow> bool" where
  "permutation_contract R \<longleftrightarrow> (\<forall>g k. mset (fst (permutation R g k)) = mset [0..<k])"

definition identity_m :: "nat \<Rightarrow> vec list" where
  "identity_m k = map (\<lambda>i. map (\<lambda>j. if i = j then 1 else 0) [0..<k]) [0..<k]"

definition is_square :: "nat \<Rightarrow> vec list \<Rightarrow> bool" where
  "is_square k A \<longleftrightarrow> length A = k \<and> (\<forall>r \<in> set A. length r = k)"

definition is_inverse :: "vec list \<Rightarrow> vec list \<Rightarrow> bool" where
  "is_inverse A Z \<longleftrightarrow>
     is_square (length A) Z
     \<and> np_dot_mm A (length A) Z = identity_m (length A)
     \<and> np_dot_mm Z (length A) A = identity_m (length A)"

definition linalg_inv_contract :: "'g numpy \<Rightarrow> bool" where
  "linalg_inv_contract R \<longleftrightarrow> (\<forall>A Z. linalg_inv R A = Some Z \<longrightarrow> is_inverse A Z)"

subsection \<open>Valid training data\<close>

text \<open>The input contract of \<open>fit\<close>: every row of the features has the declared number of
  columns, and there is one target per row.\<close>

definition aligned :: "nat \<Rightarrow> vec list \<Rightarrow> vec \<Rightarrow> bool" where
  "aligned n X y \<longleftrightarrow> (\<forall>r \<in> set X. length r = n) \<and> length y = length X"

subsection \<open>The normal equation, as the specification writes it\<close>






subsection \<open>The epochs, as the specification writes them\<close>

text \<open>
  These definitions follow the words of the specification, with sums over indices; the
  theorems on gd and sgd compare them with what \<open>fit\<close> computes. The net input of a
  sample is \<open>w \<cdot> x + b\<close> with the bias \<open>b\<close> at index 0 of the weight vector.
\<close>

definition spec_net_input :: "vec \<Rightarrow> vec \<Rightarrow> real" where
  "spec_net_input w x = (\<Sum>j = 0..<length x. x ! j * w ! Suc j) + w ! 0"

text \<open>One epoch of batch gradient descent on \<open>m\<close> samples of \<open>n\<close> features: every error
  is taken with the weights of the start of the epoch; the bias moves by \<open>eta\<close> times the
  sum of the errors, weight \<open>j\<close> by \<open>eta\<close> times entry \<open>j\<close> of \<open>X\<^sup>T \<cdot> error\<close>; the cost is
  half the sum of the squared errors.\<close>

definition spec_gd_epoch :: "real \<Rightarrow> nat \<Rightarrow> vec list \<Rightarrow> vec \<Rightarrow> vec \<Rightarrow> vec \<times> real" where
  "spec_gd_epoch et n X y w =
     (let err = (\<lambda>i. y ! i - spec_net_input w (X ! i));
          m = length X
      in ((w ! 0 + et * (\<Sum>i = 0..<m. err i))
            # map (\<lambda>j. w ! Suc j + et * (\<Sum>i = 0..<m. X ! i ! j * err i)) [0..<n],
          (\<Sum>i = 0..<m. (err i)\<^sup>2) / 2))"

text \<open>Training repeats an epoch a given number of times, appending each cost to the
  history.\<close>

fun spec_train :: "(vec \<Rightarrow> vec \<times> real) \<Rightarrow> nat \<Rightarrow> vec \<times> real list \<Rightarrow> vec \<times> real list" where
  "spec_train step 0 (w, cs) = (w, cs)"
| "spec_train step (Suc k) (w, cs) = (case step w of (w', c) \<Rightarrow> spec_train step k (w', cs @ [c]))"

text \<open>Two data sets on which an epoch of gradient descent does the same, the second one
  valid: what a shuffle of valid data preserves.\<close>

definition gd_same :: "real \<Rightarrow> nat \<Rightarrow> vec list \<Rightarrow> vec \<Rightarrow> vec list \<Rightarrow> vec \<Rightarrow> bool" where
  "gd_same et n X y X' y' \<longleftrightarrow>
     aligned n X' y' \<and> (\<forall>w. spec_gd_epoch et n X' y' w = spec_gd_epoch et n X y w)"

text \<open>One epoch of stochastic gradient descent. \<open>spec_sgd_weights \<dots> i\<close> are the weights
  once the first \<open>i\<close> samples have been processed: sample \<open>i\<close> takes its error with them and
  moves them at once, the bias by \<open>eta\<close> times the error and weight \<open>j\<close> by \<open>eta\<close> times
  \<open>x\<^sub>i\<^sub>j\<close> times the error. The cost of the epoch is the sum of the halved squares of these
  errors.\<close>

fun spec_sgd_weights :: "real \<Rightarrow> vec list \<Rightarrow> vec \<Rightarrow> vec \<Rightarrow> nat \<Rightarrow> vec" where
  "spec_sgd_weights et X y w 0 = w"
| "spec_sgd_weights et X y w (Suc i) =
     (let v = spec_sgd_weights et X y w i;
          e = y ! i - spec_net_input v (X ! i)
      in (v ! 0 + et * e) # map (\<lambda>j. v ! Suc j + et * X ! i ! j * e) [0..<length (X ! i)])"

definition spec_sgd_error :: "real \<Rightarrow> vec list \<Rightarrow> vec \<Rightarrow> vec \<Rightarrow> nat \<Rightarrow> real" where
  "spec_sgd_error et X y w i = y ! i - spec_net_input (spec_sgd_weights et X y w i) (X ! i)"

definition spec_sgd_epoch :: "real \<Rightarrow> vec list \<Rightarrow> vec \<Rightarrow> vec \<Rightarrow> vec \<times> real" where
  "spec_sgd_epoch et X y w =
     (spec_sgd_weights et X y w (length X),
      (\<Sum>i = 0..<length X. (spec_sgd_error et X y w i)\<^sup>2 / 2))"

text \<open>Training with sgd: each epoch first shuffles features and targets by one drawn
  permutation when shuffling is on (the shuffled data are what the next epoch shuffles
  again), then runs the epoch on them in order.\<close>

fun spec_sgd_train :: "'g numpy \<Rightarrow> bool \<Rightarrow> real \<Rightarrow> nat \<Rightarrow> 'g \<Rightarrow> vec list \<Rightarrow> vec
                         \<Rightarrow> vec \<times> real list \<Rightarrow> (vec \<times> real list) \<times> 'g" where
  "spec_sgd_train R sh et 0 g X y (w, cs) = ((w, cs), g)"
| "spec_sgd_train R sh et (Suc k) g X y (w, cs) =
     (case (if sh then (case permutation R g (length y) of
                          (r, g') \<Rightarrow> (map (\<lambda>i. X ! i) r, map (\<lambda>i. y ! i) r, g'))
            else (X, y, g)) of
        (X', y', g') \<Rightarrow>
          (case spec_sgd_epoch et X' y' w of
             (w', c) \<Rightarrow> spec_sgd_train R sh et k g' X' y' (w', cs @ [c])))"

text \<open>The data an epoch works on, and the generator after the draw.\<close>

definition shuffled :: "'g numpy \<Rightarrow> bool \<Rightarrow> 'g \<Rightarrow> vec list \<Rightarrow> vec \<Rightarrow> vec list \<times> vec \<times> 'g" where
  "shuffled R sh g X y =
     (if sh then (case permutation R g (length y) of
                    (r, g') \<Rightarrow> (map (\<lambda>i. X ! i) r, map (\<lambda>i. y ! i) r, g'))
      else (X, y, g))"

section \<open>Properties\<close>

subsection \<open>Label validation\<close>

lemma np_unique_sorted_list: "np_unique y = sorted_list_of_set (set y)"
  by (simp add: np_unique_def sorted_list_of_set_sort_remdups)

lemma sorted_list_pair:
  assumes "sorted_list_of_set S = [a, b]" and "finite S"
  shows "S = {a, b} \<and> a < (b::real)"
proof -
  have "set (sorted_list_of_set S) = S" using assms(2) by simp
  moreover have "distinct (sorted_list_of_set S)" "sorted (sorted_list_of_set S)" by simp_all
  ultimately show ?thesis using assms(1) by auto
qed

lemma np_unique_pair: "np_unique y = [a, b] \<longleftrightarrow> set y = {a, b} \<and> a < b"
proof
  assume "np_unique y = [a, b]"
  then show "set y = {a, b} \<and> a < b"
    using sorted_list_pair[of "set y" a b] by (simp add: np_unique_sorted_list)
next
  assume h: "set y = {a, b} \<and> a < b"
  have "sorted_list_of_set (set y) = [a, b]"
  proof (rule sorted_distinct_set_unique)
    show "set (sorted_list_of_set (set y)) = set [a, b]" using h by simp
  qed (use h in simp_all)
  then show "np_unique y = [a, b]" by (simp add: np_unique_sorted_list)
qed

lemma length2_conv: "length xs = 2 \<longleftrightarrow> (\<exists>a b. xs = [a, b])"
  by (cases xs; cases "tl xs"; auto)

lemma labels_check:
  "(length (np_unique y) \<noteq> 2 \<or> \<not> (np_unique y ! 0 = -1 \<or> np_unique y ! 0 = 0) \<or> np_unique y ! 1 \<noteq> 1)
     \<longleftrightarrow> \<not> (set y = {0, 1} \<or> set y = {-1, 1})"
proof (cases "length (np_unique y) = 2")
  case True
  then obtain a b where ab: "np_unique y = [a, b]" by (auto simp: length2_conv)
  then have s: "set y = {a, b}" "a < b" by (simp_all add: np_unique_pair)
  show ?thesis
  proof (cases "(a = -1 \<or> a = 0) \<and> b = 1")
    case True
    then show ?thesis using ab s by auto
  next
    case False
    have "\<not> (set y = {0, 1} \<or> set y = {-1, 1})"
    proof
      assume "set y = {0, 1} \<or> set y = {-1, 1}"
      then have "np_unique y = [0, 1] \<or> np_unique y = [-1, 1]"
        by (auto simp: np_unique_pair)
      then show False using ab False by auto
    qed
    then show ?thesis using ab False by auto
  qed
next
  case False
  have "\<not> (set y = {0, 1} \<or> set y = {-1, 1})"
  proof
    assume "set y = {0, 1} \<or> set y = {-1, 1}"
    then have "np_unique y = [0, 1] \<or> np_unique y = [-1, 1]"
      by (auto simp: np_unique_pair)
    then show False using False by auto
  qed
  then show ?thesis using False by simp
qed

lemma fit_invalid_labels:
  "\<not> (set y = {0, 1} \<or> set y = {-1, 1}) \<Longrightarrow>
   fit R self g (Rank2 n rs) y init_w
     = Raises LabelDomainError (self\<lparr>classes_attr := Some (np_unique y)\<rparr>) g"
  using labels_check[of y] by (simp add: fit_def Let_def)

lemma solver_prepared: "solver (fst (prepared R self g n y init_w)) = solver self"
  by (simp add: prepared_def validated_def init_weights_def Let_def split: prod.splits)

lemma epochs_prepared: "epochs (fst (prepared R self g n y init_w)) = epochs self"
  by (simp add: prepared_def validated_def init_weights_def Let_def split: prod.splits)

lemma init_weights_fields:
  "init_weights R s g k = (s', g') \<Longrightarrow> \<exists>w. s' = s\<lparr>w_attr := Some w\<rparr>"
  by (auto simp: init_weights_def Let_def split: if_splits prod.splits)

lemma fit_valid_labels:
  assumes "set y = {0, 1} \<or> set y = {-1, 1}"
  shows "fit R self g (Rank2 n rs) y init_w =
     (case prepared R self g n y init_w of
        (s4, g3) \<Rightarrow>
          if solver self = NormalEquation
          then (case normal_equation R n rs y of
                  Inl e \<Rightarrow> Raises e s4 g3
                | Inr w \<Rightarrow> Returns (s4\<lparr>w_attr := Some w\<rparr>) g3)
          else epochs_loop R (nat (epochs self)) s4 g3 n rs y)"
proof -
  have cond: "(length (np_unique y) \<noteq> 2 \<or> \<not> (np_unique y ! 0 = -1 \<or> np_unique y ! 0 = 0)
              \<or> np_unique y ! 1 \<noteq> 1) = False"
    using labels_check[of y] assms by blast
  obtain s3 g3 where p: "(if init_w then init_weights R (validated self y) g (1 + n)
                      else (validated self y, g)) = (s3, g3)" by fastforce
  have s: "solver s3 = solver self" "epochs s3 = epochs self"
    using p by (auto simp: validated_def split: if_splits dest!: init_weights_fields)
  have "fit R self g (Rank2 n rs) y init_w =
     (if solver (s3\<lparr>cost_attr := Some []\<rparr>) = NormalEquation
      then (case normal_equation R n rs y of
              Inl e \<Rightarrow> Raises e (s3\<lparr>cost_attr := Some []\<rparr>) g3
            | Inr w \<Rightarrow> Returns (s3\<lparr>cost_attr := Some [], w_attr := Some w\<rparr>) g3)
      else epochs_loop R (nat (epochs (s3\<lparr>cost_attr := Some []\<rparr>)))
             (s3\<lparr>cost_attr := Some []\<rparr>) g3 n rs y)"
    using p unfolding fit_def Let_def validated_def
    by (simp only: ndarray.case cond if_False prod.case)
  also have "\<dots> = (case prepared R self g n y init_w of
        (s4, g3) \<Rightarrow>
          if solver self = NormalEquation
          then (case normal_equation R n rs y of
                  Inl e \<Rightarrow> Raises e s4 g3
                | Inr w \<Rightarrow> Returns (s4\<lparr>w_attr := Some w\<rparr>) g3)
          else epochs_loop R (nat (epochs self)) s4 g3 n rs y)"
    unfolding prepared_def Let_def p prod.case using s by simp
  finally show ?thesis .
qed

lemma sgd_samples_error:
  "sgd_samples et wo c zs = Inl (e, wo') \<Longrightarrow>
     e = AttributeError \<or> e = DimensionMismatch \<or> e = IndexError"
proof (induction zs arbitrary: wo c)
  case Nil
  then show ?case by simp
next
  case (Cons z zs)
  obtain xi yi where z: "z = (xi, yi)" by (cases z)
  show ?case
  proof (cases wo)
    case None
    then show ?thesis using Cons.prems z by simp
  next
    case (Some w)
    show ?thesis
    proof (cases "net_input_vec w xi")
      case (Inl e')
      then have "e = e'" using Cons.prems z Some by simp
      moreover have "e' = DimensionMismatch \<or> e' = IndexError"
        using Inl by (auto simp: net_input_vec_def np_dot_vv_def split: if_splits sum.splits)
      ultimately show ?thesis by blast
    next
      case (Inr v)
      then show ?thesis using Cons.prems z Some Cons.IH by (simp add: Let_def)
    qed
  qed
qed

lemma gd_epoch_error:
  "gd_epoch et n X y w = Inl e \<Longrightarrow> e = DimensionMismatch \<or> e = IndexError"
  by (auto simp: gd_epoch_def activation_def net_input_def np_dot_mv_def np_sub_def
           split: sum.splits if_splits)

lemma shuffle_unison_error: "shuffle_unison R g X y = Inl (e, g') \<Longrightarrow> e = IndexError"
  by (auto simp: shuffle_unison_def Let_def split: prod.splits if_splits)

lemma epoch_error:
  assumes "epoch R s g n X y = Inl (e, s', g')"
  shows "(e = AttributeError \<or> e = DimensionMismatch \<or> e = IndexError)
          \<and> s' = s\<lparr>w_attr := w_attr s'\<rparr>"
  using assms unfolding epoch_def
  by (auto split: sum.splits prod.splits if_splits option.splits
           dest: shuffle_unison_error gd_epoch_error sgd_samples_error)

lemma epoch_fields:
  assumes "epoch R s g n X y = Inr (s', g', X', y')"
  shows "\<exists>cs c. cost_attr s = Some cs
            \<and> s' = s\<lparr>w_attr := w_attr s', cost_attr := Some (cs @ [c])\<rparr>"
  using assms unfolding epoch_def
  by (auto split: sum.splits prod.splits if_splits option.splits)

lemma epochs_loop_error:
  "epochs_loop R k s g n X y = Raises e s' g' \<Longrightarrow>
     e = AttributeError \<or> e = DimensionMismatch \<or> e = IndexError"
proof (induction k arbitrary: s g X y)
  case 0
  then show ?case by simp
next
  case (Suc k)
  show ?case
  proof (cases "epoch R s g n X y")
    case (Inl a)
    then obtain e1 s1 g1 where a: "a = (e1, s1, g1)" by (cases a)
    with Inl Suc.prems have "e = e1" by simp
    then show ?thesis using epoch_error[of R s g n X y e1 s1 g1] Inl a by simp
  next
    case (Inr b)
    then obtain s1 g1 X1 y1 where b: "b = (s1, g1, X1, y1)" by (cases b)
    with Inr Suc.prems have "epochs_loop R k s1 g1 n X1 y1 = Raises e s' g'" by simp
    then show ?thesis by (rule Suc.IH)
  qed
qed

lemma normal_equation_error:
  "normal_equation R n X y = Inl e \<Longrightarrow> e = LinAlgError \<or> e = DimensionMismatch"
  by (auto simp: normal_equation_def Let_def np_dot_mv_def split: option.splits if_splits)

lemma fit_valid_no_label_error:
  assumes "set y = {0, 1} \<or> set y = {-1, 1}"
  shows "fit R self g (Rank2 n rs) y init_w \<noteq> Raises LabelDomainError s g'"
proof
  obtain s4 g3 where p: "prepared R self g n y init_w = (s4, g3)" by fastforce
  assume r: "fit R self g (Rank2 n rs) y init_w = Raises LabelDomainError s g'"
  show False
  proof (cases "solver self = NormalEquation")
    case True
    with r p assms show False
      by (auto simp: fit_valid_labels split: sum.splits dest: normal_equation_error)
  next
    case False
    with r p assms
    have "epochs_loop R (nat (epochs self)) s4 g3 n rs y = Raises LabelDomainError s g'"
      by (simp add: fit_valid_labels)
    then show False by (auto dest: epochs_loop_error)
  qed
qed

lemma fit_label_error_cases:
  assumes "fit R self g X y init_w = Raises LabelDomainError s' g'"
  shows "\<exists>n rs. X = Rank2 n rs \<and> \<not> (set y = {0, 1} \<or> set y = {-1, 1})"
proof (cases X)
  case (Rank2 n rs)
  then show ?thesis using assms fit_valid_no_label_error[of y R self g n rs init_w s' g'] by auto
next
  case (RankOther sh)
  then show ?thesis using assms by (simp add: fit_def)
qed

lemma fit_returns_cases:
  assumes "fit R self g X y init_w = Returns s' g'"
  shows "\<exists>n rs. X = Rank2 n rs \<and> (set y = {0, 1} \<or> set y = {-1, 1})"
proof (cases X)
  case (Rank2 n rs)
  then show ?thesis using assms fit_invalid_labels[of y R self g n rs init_w] by auto
next
  case (RankOther sh)
  then show ?thesis using assms by (simp add: fit_def)
qed

subsection \<open>What the epochs change\<close>

lemma epochs_loop_fields:
  "epochs_loop R k s g n X y = Returns s' g' \<Longrightarrow> cost_attr s = Some cs \<Longrightarrow>
     \<exists>cs'. length cs' = k \<and> s' = s\<lparr>w_attr := w_attr s', cost_attr := Some (cs @ cs')\<rparr>"
proof (induction k arbitrary: s g X y cs)
  case 0
  then show ?case by simp
next
  case (Suc k)
  show ?case
  proof (cases "epoch R s g n X y")
    case (Inl a)
    then show ?thesis using Suc.prems by (cases a) simp
  next
    case (Inr b)
    then obtain s1 g1 X1 y1 where b: "epoch R s g n X y = Inr (s1, g1, X1, y1)"
      by (cases b) simp
    with Suc.prems have l: "epochs_loop R k s1 g1 n X1 y1 = Returns s' g'" by simp
    from epoch_fields[OF b] Suc.prems(2) obtain c where
      s1: "s1 = s\<lparr>w_attr := w_attr s1, cost_attr := Some (cs @ [c])\<rparr>" by auto
    then have "cost_attr s1 = Some (cs @ [c])" by (metis adaline.select_convs(9) adaline.surjective adaline.update_convs(9))
    from Suc.IH[OF l this] obtain cs' where
      cs': "length cs' = k" "s' = s1\<lparr>w_attr := w_attr s', cost_attr := Some ((cs @ [c]) @ cs')\<rparr>"
      by auto
    have "s' = s\<lparr>w_attr := w_attr s', cost_attr := Some (cs @ (c # cs'))\<rparr>"
      by (subst cs'(2), subst s1) simp
    moreover have "length (c # cs') = Suc k" using cs'(1) by simp
    ultimately show ?thesis by blast
  qed
qed

lemma prepared_cost_irrelevant:
  "prepared R (self\<lparr>cost_attr := c\<rparr>) g n y init_w = prepared R self g n y init_w"
  by (simp add: prepared_def validated_def init_weights_def Let_def split: prod.splits)

lemma prepared_cost: "cost_attr (fst (prepared R self g n y init_w)) = Some []"
  by (simp add: prepared_def Let_def split: prod.splits)

lemma fit_normal_equation_returns:
  assumes "solver self = NormalEquation"
  shows "fit R self g X y init_w = Returns s' g' \<longleftrightarrow>
           (\<exists>n rs w. X = Rank2 n rs \<and> (set y = {0, 1} \<or> set y = {-1, 1})
              \<and> normal_equation R n rs y = Inr w
              \<and> s' = (fst (prepared R self g n y init_w))\<lparr>w_attr := Some w\<rparr>
              \<and> g' = snd (prepared R self g n y init_w))"
proof
  assume r: "fit R self g X y init_w = Returns s' g'"
  from fit_returns_cases[OF r] obtain n rs where
    X: "X = Rank2 n rs" and ok: "set y = {0, 1} \<or> set y = {-1, 1}" by blast
  obtain s4 g3 where p: "prepared R self g n y init_w = (s4, g3)" by fastforce
  from r X p assms obtain w where "normal_equation R n rs y = Inr w"
    "s' = s4\<lparr>w_attr := Some w\<rparr>" "g' = g3"
    unfolding X fit_valid_labels[OF ok] by (cases "normal_equation R n rs y") simp_all
  with X ok p show "\<exists>n rs w. X = Rank2 n rs \<and> (set y = {0, 1} \<or> set y = {-1, 1})
              \<and> normal_equation R n rs y = Inr w
              \<and> s' = (fst (prepared R self g n y init_w))\<lparr>w_attr := Some w\<rparr>
              \<and> g' = snd (prepared R self g n y init_w)"
    by (intro exI[of _ n] exI[of _ rs] exI[of _ w]) simp
next
  assume "\<exists>n rs w. X = Rank2 n rs \<and> (set y = {0, 1} \<or> set y = {-1, 1})
              \<and> normal_equation R n rs y = Inr w
              \<and> s' = (fst (prepared R self g n y init_w))\<lparr>w_attr := Some w\<rparr>
              \<and> g' = snd (prepared R self g n y init_w)"
  then obtain n rs w where X: "X = Rank2 n rs" and ok: "set y = {0, 1} \<or> set y = {-1, 1}"
    and w: "normal_equation R n rs y = Inr w"
    and s: "s' = (fst (prepared R self g n y init_w))\<lparr>w_attr := Some w\<rparr>"
           "g' = snd (prepared R self g n y init_w)" by blast
  show "fit R self g X y init_w = Returns s' g'"
    using X w s assms by (simp add: fit_valid_labels[OF ok] split: prod.splits)
qed

subsection \<open>Shuffling and the length of the weights\<close>

lemma permutation_contract_draw:
  assumes "permutation_contract R" and "permutation R g k = (r, g')"
  shows "mset r = mset [0..<k]" "length r = k" "set r = {0..<k}"
proof -
  show m: "mset r = mset [0..<k]"
    using assms by (metis fst_conv permutation_contract_def)
  show "length r = k" using m by (metis length_upt mset_eq_length diff_zero)
  show "set r = {0..<k}" using m by (metis mset_eq_setD set_upt)
qed

lemma shuffle_unison_aligned:
  assumes "permutation_contract R" and "aligned n X y"
  shows "\<exists>r g'. permutation R g (length y) = (r, g') \<and> mset r = mset [0..<length y]
           \<and> shuffle_unison R g X y = Inr ((map (\<lambda>i. X ! i) r, map (\<lambda>i. y ! i) r), g')
           \<and> aligned n (map (\<lambda>i. X ! i) r) (map (\<lambda>i. y ! i) r)
           \<and> length (map (\<lambda>i. y ! i) r) = length y"
proof -
  obtain r g' where p: "permutation R g (length y) = (r, g')" by fastforce
  note d = permutation_contract_draw[OF assms(1) p]
  have len: "length y = length X" using assms(2) by (simp add: aligned_def)
  have in_range: "\<forall>i \<in> set r. i < length X" "\<forall>i \<in> set r. i < length y"
    using d(3) len by auto
  have "shuffle_unison R g X y = Inr ((map (\<lambda>i. X ! i) r, map (\<lambda>i. y ! i) r), g')"
    using p in_range by (simp add: shuffle_unison_def)
  moreover have "aligned n (map (\<lambda>i. X ! i) r) (map (\<lambda>i. y ! i) r)"
    using assms(2) in_range by (auto simp: aligned_def)
  ultimately show ?thesis using p d(1,2) by simp
qed

lemma net_input_vec_ok:
  "length w = Suc (length x) \<Longrightarrow> net_input_vec w x = Inr (dotp x (drop 1 w) + w ! 0)"
  by (auto simp: net_input_vec_def np_dot_vv_def)

lemma net_input_vec_Inr:
  "net_input_vec w x = Inr v \<Longrightarrow> length w = Suc (length x)"
  by (cases w) (auto simp: net_input_vec_def np_dot_vv_def split: if_splits)

lemma sgd_samples_length:
  assumes "sgd_samples et (Some w) c zs = Inr (wo', c')" and "length w = Suc n"
    and "\<forall>z \<in> set zs. length (fst z) = n"
  shows "\<exists>w'. wo' = Some w' \<and> length w' = Suc n"
  using assms
proof (induction zs arbitrary: w c)
  case Nil
  then show ?case by auto
next
  case (Cons z zs)
  obtain xi yi where z: "z = (xi, yi)" by (cases z)
  have lx: "length xi = n" using Cons.prems(3) z by simp
  obtain v where v: "net_input_vec w xi = Inr v"
    using net_input_vec_ok[of w xi] lx Cons.prems(2) by simp
  let ?w' = "(w ! 0 + et * (yi - v)) # map2 (+) (drop 1 w) (map (\<lambda>u. et * (u * (yi - v))) xi)"
  have "sgd_samples et (Some ?w') (c + (yi - v)\<^sup>2 / 2) zs = Inr (wo', c')"
    using Cons.prems(1) z v by (simp add: Let_def)
  moreover have "length ?w' = Suc n" using lx Cons.prems(2) by simp
  ultimately show ?case using Cons.IH Cons.prems(3) by simp
qed

lemma sgd_samples_first_length:
  assumes "sgd_samples et wo c zs = Inr (wo', c')" and "zs \<noteq> []"
    and "\<forall>z \<in> set zs. length (fst z) = n"
  shows "\<exists>w'. wo' = Some w' \<and> length w' = Suc n"
proof -
  obtain xi yi rest where zs: "zs = (xi, yi) # rest" using assms(2) by (cases zs) auto
  obtain w where w: "wo = Some w" using assms(1) zs by (cases wo) auto
  obtain v where v: "net_input_vec w xi = Inr v"
    using assms(1) zs w by (cases "net_input_vec w xi") auto
  have "length w = Suc n" using net_input_vec_Inr[OF v] assms(3) zs by simp
  then show ?thesis using sgd_samples_length[of et w c zs wo' c' n] assms(1,3) w by simp
qed

lemma gd_epoch_length:
  assumes "gd_epoch et n X y w = Inr (w', c)"
  shows "length w' = Suc n"
proof -
  from assms have "length (drop 1 w) = n"
    by (auto simp: gd_epoch_def activation_def net_input_def np_dot_mv_def
             split: sum.splits if_splits)
  moreover from assms have "\<exists>errs.
     w' = (w ! 0 + et * sum_list errs)
             # map2 (+) (drop 1 w) (map (\<lambda>v. et * v) (map (\<lambda>r. dotp r errs) (transpose_m n X)))"
    by (auto simp: gd_epoch_def np_dot_mv_def split: sum.splits if_splits)
  ultimately show ?thesis by (auto simp: transpose_m_def)
qed

lemma epoch_shuffled:
  assumes "aligned n X y" and "shuffle s \<longrightarrow> permutation_contract R"
  shows "\<exists>X' y' g'. (if shuffle s then shuffle_unison R g X y else Inr ((X, y), g))
                       = Inr ((X', y'), g')
           \<and> aligned n X' y' \<and> length y' = length y"
proof (cases "shuffle s")
  case True
  then show ?thesis using shuffle_unison_aligned[of R n X y g] assms by auto
next
  case False
  then show ?thesis using assms(1) by simp
qed

lemma epoch_weights_length:
  assumes "epoch R s g n X y = Inr (s', g', X', y')"
    and "aligned n X y" and "y \<noteq> []" and "shuffle s \<longrightarrow> permutation_contract R"
  shows "(\<exists>w'. w_attr s' = Some w' \<and> length w' = Suc n) \<and> aligned n X' y' \<and> y' \<noteq> []
          \<and> shuffle s' = shuffle s"
proof -
  from epoch_shuffled[OF assms(2,4), of g] obtain X1 y1 g1 where
    sh: "(if shuffle s then shuffle_unison R g X y else Inr ((X, y), g)) = Inr ((X1, y1), g1)"
    and al: "aligned n X1 y1" and len: "length y1 = length y" by blast
  have ne: "y1 \<noteq> []" using len assms(3) by auto
  let ?step = "if solver s = GD
                 then (case w_attr s of
                         None \<Rightarrow> Inl (AttributeError, None)
                       | Some w \<Rightarrow>
                           (case gd_epoch (eta s) n X1 y1 w of
                              Inl e \<Rightarrow> Inl (e, Some w)
                            | Inr (w', cost) \<Rightarrow> Inr (Some w', cost)))
                 else sgd_samples (eta s) (w_attr s) 0 (zip X1 y1)"
  from assms(1) sh obtain wo cost cs where
    st: "?step = Inr (wo, cost)" and cs: "cost_attr s = Some cs"
    and s': "s' = s\<lparr>w_attr := wo, cost_attr := Some (cs @ [cost])\<rparr>" and xy: "X' = X1" "y' = y1"
    unfolding epoch_def by (auto split: sum.splits option.splits)
  have "\<exists>w'. wo = Some w' \<and> length w' = Suc n"
  proof (cases "solver s = GD")
    case True
    with st show ?thesis
      by (auto split: option.splits sum.splits dest: gd_epoch_length)
  next
    case False
    with st have r: "sgd_samples (eta s) (w_attr s) 0 (zip X1 y1) = Inr (wo, cost)" by simp
    have "zip X1 y1 \<noteq> []" using ne al by (cases X1; cases y1) (auto simp: aligned_def)
    moreover have "\<forall>z \<in> set (zip X1 y1). length (fst z) = n"
      using al by (auto simp: aligned_def dest: set_zip_leftD)
    ultimately show ?thesis using sgd_samples_first_length[OF r] by blast
  qed
  then show ?thesis using s' xy al ne by auto
qed

lemma epochs_loop_weights_length:
  assumes "epochs_loop R k s g n X y = Returns s' g'" and "0 < k"
    and "aligned n X y" and "y \<noteq> []" and "shuffle s \<longrightarrow> permutation_contract R"
  shows "\<exists>w'. w_attr s' = Some w' \<and> length w' = Suc n"
  using assms
proof (induction k arbitrary: s g X y)
  case 0
  then show ?case by simp
next
  case (Suc k)
  from Suc.prems(1) obtain s1 g1 X1 y1 where
    e: "epoch R s g n X y = Inr (s1, g1, X1, y1)"
    and l: "epochs_loop R k s1 g1 n X1 y1 = Returns s' g'"
    by (auto split: sum.splits)
  note f = epoch_weights_length[OF e Suc.prems(3,4,5)]
  show ?case
  proof (cases k)
    case 0
    then show ?thesis using l f by simp
  next
    case (Suc j)
    then show ?thesis using Suc.IH[OF l] f Suc.prems(5) by simp
  qed
qed

lemma normal_equation_length:
  assumes "normal_equation R n X y = Inr w" and "linalg_inv_contract R"
  shows "length w = Suc n"
proof -
  let ?A = "np_dot_mm (transpose_m (Suc n) (map (\<lambda>r. 1 # r) X)) (Suc n) (map (\<lambda>r. 1 # r) X)"
  from assms(1) obtain z where z: "linalg_inv R ?A = Some z" and w: "length w = length z"
    by (auto simp: normal_equation_def Let_def split: option.splits sum.splits)
  have "is_inverse ?A z" using z assms(2) by (simp add: linalg_inv_contract_def)
  then have "length z = length ?A" by (simp add: is_inverse_def is_square_def)
  then show ?thesis using w by (simp add: np_dot_mm_def transpose_m_def)
qed

lemma labels_nonempty: "set y = {0, 1} \<or> set y = {-1, 1} \<Longrightarrow> y \<noteq> ([]::real list)"
  by auto

lemma prepared_shuffle: "shuffle (fst (prepared R self g n y init_w)) = shuffle self"
  by (simp add: prepared_def validated_def init_weights_def Let_def split: prod.splits)

subsection \<open>The initial weights\<close>

lemma init_weights_value:
  "init_weights R s g k =
     (s\<lparr>w_attr := Some (if zero_init_weight s then replicate k 0
                         else map (\<lambda>x. 0.2 * x - 0.5) (fst (ranf R g k)))\<rparr>,
      if zero_init_weight s then g else snd (ranf R g k))"
  by (simp add: init_weights_def Let_def split: prod.splits)

lemma prepared_True:
  "prepared R self g n y True =
     ((fst (init_weights R (validated self y) g (1 + n)))\<lparr>cost_attr := Some []\<rparr>,
      snd (init_weights R (validated self y) g (1 + n)))"
  by (simp add: prepared_def Let_def split: prod.splits)

lemma prepared_False:
  "prepared R self g n y False = ((validated self y)\<lparr>cost_attr := Some []\<rparr>, g)"
  by (simp add: prepared_def Let_def)

lemma ranf_contract_draw:
  assumes "ranf_contract R"
  shows "length (fst (ranf R g k)) = k" "\<forall>u \<in> set (fst (ranf R g k)). 0 \<le> u \<and> u < 1"
  using assms unfolding ranf_contract_def by blast+

lemma init_weights_length:
  assumes "ranf_contract R"
  shows "\<exists>w. w_attr (fst (init_weights R s g k)) = Some w \<and> length w = k"
  using ranf_contract_draw(1)[OF assms] by (simp add: init_weights_value)

subsection \<open>Labels and prediction\<close>

lemma prepared_fields:
  "\<exists>wo. fst (prepared R self g n y init_w)
          = (validated self y)\<lparr>w_attr := wo, cost_attr := Some []\<rparr>"
proof (cases init_w)
  case True
  then show ?thesis by (auto simp: prepared_True init_weights_value)
next
  case False
  then show ?thesis
    by (intro exI[of _ "w_attr (validated self y)"]) (simp add: prepared_False)
qed

lemma fit_returns_labels:
  assumes "fit R self g X y init_w = Returns s' g'"
  shows "classes_attr s' = Some (np_unique y)
         \<and> thres_attr s' = Some (if np_unique y ! 0 = -1 then 0 else 0.5)"
proof -
  from fit_returns_cases[OF assms] obtain n rs where
    X: "X = Rank2 n rs" and ok: "set y = {0, 1} \<or> set y = {-1, 1}" by blast
  obtain s4 g3 where p: "prepared R self g n y init_w = (s4, g3)" by fastforce
  from prepared_fields[of R self g n y init_w] p obtain wo where
    s4: "s4 = (validated self y)\<lparr>w_attr := wo, cost_attr := Some []\<rparr>" by auto
  have "\<exists>wo' co'. s' = s4\<lparr>w_attr := wo', cost_attr := co'\<rparr>"
  proof (cases "solver self = NormalEquation")
    case True
    from assms obtain w where "s' = s4\<lparr>w_attr := Some w\<rparr>"
      unfolding fit_normal_equation_returns[OF True] X using p by auto
    then have "s' = s4\<lparr>w_attr := Some w, cost_attr := cost_attr s4\<rparr>" by simp
    then show ?thesis by blast
  next
    case False
    then have l: "epochs_loop R (nat (epochs self)) s4 g3 n rs y = Returns s' g'"
      using assms p unfolding X by (simp add: fit_valid_labels[OF ok])
    have "cost_attr s4 = Some []" using s4 by simp
    from epochs_loop_fields[OF l this] show ?thesis by blast
  qed
  then obtain wo' co' where "s' = s4\<lparr>w_attr := wo', cost_attr := co'\<rparr>" by blast
  then show ?thesis using s4 by (simp add: validated_def)
qed

lemma net_input_ok:
  "length w = Suc m \<Longrightarrow>
     net_input w m Xp = Inr (map (\<lambda>row. dotp row (drop 1 w) + w ! 0) Xp)"
  by (auto simp: net_input_def np_dot_mv_def)

subsection \<open>Matrices as lists of rows\<close>

lemma dotp_sum:
  "length a = length b \<Longrightarrow> dotp a b = (\<Sum>i = 0..<length a. a ! i * b ! i)"
proof -
  assume l: "length a = length b"
  have "dotp a b = (\<Sum>i = 0..<length (map2 (*) a b). map2 (*) a b ! i)"
    unfolding dotp_def by (rule sum_list_sum_nth)
  also have "\<dots> = (\<Sum>i = 0..<length a. a ! i * b ! i)"
    using l by (intro sum.cong) auto
  finally show ?thesis .
qed

lemma is_square_nth: "is_square k A \<Longrightarrow> i < k \<Longrightarrow> length (A ! i) = k"
  by (simp add: is_square_def)


lemma transpose_m_nth:
  "j < n \<Longrightarrow> transpose_m n B ! j = map (\<lambda>r. r ! j) B"
  by (simp add: transpose_m_def)

lemma length_transpose_m: "length (transpose_m n B) = n"
  by (simp add: transpose_m_def)





















subsection \<open>Batch gradient descent\<close>

lemma dotp_weights:
  assumes "length x = n" "length w = Suc n"
  shows "dotp x (drop 1 w) + w ! 0 = spec_net_input w x"
proof -
  have "dotp x (drop 1 w) = (\<Sum>j = 0..<length x. x ! j * drop 1 w ! j)"
    using assms by (intro dotp_sum) simp
  also have "\<dots> = (\<Sum>j = 0..<length x. x ! j * w ! Suc j)"
    using assms by (intro sum.cong) simp_all
  finally show ?thesis by (simp add: spec_net_input_def)
qed

lemma aligned_row: "aligned n X y \<Longrightarrow> i < length X \<Longrightarrow> length (X ! i) = n"
  by (simp add: aligned_def)

lemma aligned_length: "aligned n X y \<Longrightarrow> length y = length X"
  by (simp add: aligned_def)

lemma gd_errors:
  assumes "aligned n X y" "length w = Suc n"
  shows "np_sub y (map (\<lambda>row. dotp row (drop 1 w) + w ! 0) X)
           = Inr (map (\<lambda>i. y ! i - spec_net_input w (X ! i)) [0..<length X])"
proof -
  have l: "length y = length X" using assms(1) by (rule aligned_length)
  have "map2 (-) y (map (\<lambda>row. dotp row (drop 1 w) + w ! 0) X)
          = map (\<lambda>i. y ! i - spec_net_input w (X ! i)) [0..<length X]"
  proof (rule nth_equalityI)
    show "length (map2 (-) y (map (\<lambda>row. dotp row (drop 1 w) + w ! 0) X))
            = length (map (\<lambda>i. y ! i - spec_net_input w (X ! i)) [0..<length X])"
      using l by simp
    fix i assume "i < length (map2 (-) y (map (\<lambda>row. dotp row (drop 1 w) + w ! 0) X))"
    then have i: "i < length X" using l by simp
    then show "map2 (-) y (map (\<lambda>row. dotp row (drop 1 w) + w ! 0) X) ! i
                = map (\<lambda>i. y ! i - spec_net_input w (X ! i)) [0..<length X] ! i"
      using l dotp_weights[OF aligned_row[OF assms(1) i] assms(2)] by simp
  qed
  then show ?thesis using l by (simp add: np_sub_def)
qed

lemma gd_epoch_spec:
  assumes "aligned n X y" "length w = Suc n"
  shows "gd_epoch et n X y w = Inr (spec_gd_epoch et n X y w)"
proof -
  let ?err = "\<lambda>i. y ! i - spec_net_input w (X ! i)"
  let ?errors = "map ?err [0..<length X]"
  let ?m = "length X"
  have a: "activation w n X = Inr (map (\<lambda>row. dotp row (drop 1 w) + w ! 0) X)"
    using assms(2) by (simp add: activation_def net_input_ok)
  have e: "np_sub y (map (\<lambda>row. dotp row (drop 1 w) + w ! 0) X) = Inr ?errors"
    by (rule gd_errors[OF assms])
  have gr: "np_dot_mv (length X) (transpose_m n X) ?errors
              = Inr (map (\<lambda>r. dotp r ?errors) (transpose_m n X))"
    by (simp add: np_dot_mv_def)
  have s1: "sum_list ?errors = (\<Sum>i = 0..<?m. ?err i)"
    by (simp add: interv_sum_list_conv_sum_set_nat)
  have s2: "sum_list (map (\<lambda>e. e\<^sup>2) ?errors) = (\<Sum>i = 0..<?m. (?err i)\<^sup>2)"
    by (simp add: interv_sum_list_conv_sum_set_nat comp_def)
  have g: "map2 (+) (drop 1 w) (map (\<lambda>v. et * v) (map (\<lambda>r. dotp r ?errors) (transpose_m n X)))
            = map (\<lambda>j. w ! Suc j + et * (\<Sum>i = 0..<?m. X ! i ! j * ?err i)) [0..<n]"
  proof (rule nth_equalityI)
    show "length (map2 (+) (drop 1 w)
                    (map (\<lambda>v. et * v) (map (\<lambda>r. dotp r ?errors) (transpose_m n X))))
            = length (map (\<lambda>j. w ! Suc j + et * (\<Sum>i = 0..<?m. X ! i ! j * ?err i)) [0..<n])"
      using assms(2) by (simp add: length_transpose_m)
    fix j assume "j < length (map2 (+) (drop 1 w)
                    (map (\<lambda>v. et * v) (map (\<lambda>r. dotp r ?errors) (transpose_m n X))))"
    then have j: "j < n" using assms(2) by (simp add: length_transpose_m)
    have "dotp (transpose_m n X ! j) ?errors = (\<Sum>i = 0..<?m. X ! i ! j * ?err i)"
    proof -
      have "dotp (map (\<lambda>r. r ! j) X) ?errors
              = (\<Sum>i = 0..<length (map (\<lambda>r. r ! j) X). map (\<lambda>r. r ! j) X ! i * ?errors ! i)"
        by (intro dotp_sum) simp
      also have "\<dots> = (\<Sum>i = 0..<?m. X ! i ! j * ?err i)"
        by (intro sum.cong) simp_all
      finally show ?thesis using j by (simp add: transpose_m_nth)
    qed
    then show "map2 (+) (drop 1 w)
                 (map (\<lambda>v. et * v) (map (\<lambda>r. dotp r ?errors) (transpose_m n X))) ! j
               = map (\<lambda>j. w ! Suc j + et * (\<Sum>i = 0..<?m. X ! i ! j * ?err i)) [0..<n] ! j"
      using j assms(2) by (simp add: length_transpose_m)
  qed
  show ?thesis
    unfolding gd_epoch_def a sum.case e gr prod.case s1 s2 g spec_gd_epoch_def Let_def
    by simp
qed

lemma sum_permuted:
  fixes f :: "nat \<Rightarrow> real"
  assumes "mset r = mset [0..<m]"
  shows "(\<Sum>i = 0..<length r. f (r ! i)) = (\<Sum>i = 0..<m. f i)"
proof -
  have "sum_list (map f r) = (\<Sum>i = 0..<length (map f r). map f r ! i)"
    by (rule sum_list_sum_nth)
  also have "\<dots> = (\<Sum>i = 0..<length r. f (r ! i))"
    by (intro sum.cong) simp_all
  finally have "(\<Sum>i = 0..<length r. f (r ! i)) = sum_list (map f r)" by simp
  also have "\<dots> = sum_mset (mset (map f r))" by (rule sum_mset_sum_list[symmetric])
  also have "mset (map f r) = mset (map f [0..<m])" using assms by simp
  also have "sum_mset (mset (map f [0..<m])) = sum_list (map f [0..<m])"
    by (rule sum_mset_sum_list)
  also have "\<dots> = (\<Sum>i = 0..<m. f i)" by (simp add: interv_sum_list_conv_sum_set_nat)
  finally show ?thesis .
qed

lemma spec_gd_epoch_shuffled:
  assumes "mset r = mset [0..<length X]" and "length y = length X"
  shows "spec_gd_epoch et n (map (\<lambda>i. X ! i) r) (map (\<lambda>i. y ! i) r) w
           = spec_gd_epoch et n X y w"
proof -
  let ?err = "\<lambda>i. y ! i - spec_net_input w (X ! i)"
  let ?X' = "map (\<lambda>i. X ! i) r" and ?y' = "map (\<lambda>i. y ! i) r"
  let ?err' = "\<lambda>i. ?y' ! i - spec_net_input w (?X' ! i)"
  have e: "?err' i = ?err (r ! i)" if "i < length r" for i using that by simp
  have 1: "(\<Sum>i = 0..<length ?X'. ?err' i) = (\<Sum>i = 0..<length X. ?err i)"
  proof -
    have "(\<Sum>i = 0..<length ?X'. ?err' i) = (\<Sum>i = 0..<length r. ?err (r ! i))"
      by (intro sum.cong) (simp_all add: e)
    then show ?thesis using sum_permuted[OF assms(1), of ?err] by simp
  qed
  have 2: "(\<Sum>i = 0..<length ?X'. (?err' i)\<^sup>2) = (\<Sum>i = 0..<length X. (?err i)\<^sup>2)"
  proof -
    have "(\<Sum>i = 0..<length ?X'. (?err' i)\<^sup>2) = (\<Sum>i = 0..<length r. (?err (r ! i))\<^sup>2)"
      by (intro sum.cong) (simp_all add: e)
    then show ?thesis using sum_permuted[OF assms(1), of "\<lambda>i. (?err i)\<^sup>2"] by simp
  qed
  have 3: "(\<Sum>i = 0..<length ?X'. ?X' ! i ! j * ?err' i) = (\<Sum>i = 0..<length X. X ! i ! j * ?err i)"
    for j
  proof -
    have "(\<Sum>i = 0..<length ?X'. ?X' ! i ! j * ?err' i)
            = (\<Sum>i = 0..<length r. X ! (r ! i) ! j * ?err (r ! i))"
      by (intro sum.cong) (simp_all add: e)
    then show ?thesis using sum_permuted[OF assms(1), of "\<lambda>i. X ! i ! j * ?err i"] by simp
  qed
  show ?thesis unfolding spec_gd_epoch_def Let_def 1 2 3 ..
qed

lemma length_spec_gd_epoch: "length (fst (spec_gd_epoch et n X y w)) = Suc n"
  by (simp add: spec_gd_epoch_def Let_def)

lemma gd_epoch_step:
  assumes "solver s = GD" and "w_attr s = Some w" and "cost_attr s = Some cs"
    and "length w = Suc n" and "gd_same (eta s) n X y X' y'"
    and "shuffle s \<longrightarrow> permutation_contract R"
  shows "\<exists>g1 X1 y1. epoch R s g n X' y'
            = Inr (s\<lparr>w_attr := Some (fst (spec_gd_epoch (eta s) n X y w)),
                     cost_attr := Some (cs @ [snd (spec_gd_epoch (eta s) n X y w)])\<rparr>,
                   g1, X1, y1)
          \<and> gd_same (eta s) n X y X1 y1"
proof -
  have al: "aligned n X' y'" and same: "\<And>w. spec_gd_epoch (eta s) n X' y' w = spec_gd_epoch (eta s) n X y w"
    using assms(5) by (simp_all add: gd_same_def)
  obtain X1 y1 g1 where
    sh: "(if shuffle s then shuffle_unison R g X' y' else Inr ((X', y'), g)) = Inr ((X1, y1), g1)"
    and al1: "aligned n X1 y1"
    and same1: "\<And>w. spec_gd_epoch (eta s) n X1 y1 w = spec_gd_epoch (eta s) n X y w"
  proof (cases "shuffle s")
    case True
    with assms(6) have c: "permutation_contract R" by simp
    from shuffle_unison_aligned[OF c al, of g] obtain r g' where
      r: "mset r = mset [0..<length y']"
      and u: "shuffle_unison R g X' y' = Inr ((map (\<lambda>i. X' ! i) r, map (\<lambda>i. y' ! i) r), g')"
      and a: "aligned n (map (\<lambda>i. X' ! i) r) (map (\<lambda>i. y' ! i) r)" by blast
    have l: "length y' = length X'" using al by (rule aligned_length)
    have "spec_gd_epoch (eta s) n (map (\<lambda>i. X' ! i) r) (map (\<lambda>i. y' ! i) r) w
            = spec_gd_epoch (eta s) n X y w" for w
      using spec_gd_epoch_shuffled[of r X' y' "eta s" n w] r l same by simp
    then show ?thesis using that[of "map (\<lambda>i. X' ! i) r" "map (\<lambda>i. y' ! i) r" g'] True u a
      by simp
  next
    case False
    then show ?thesis using that[of X' y' g] al same by simp
  qed
  have ge: "gd_epoch (eta s) n X1 y1 w = Inr (spec_gd_epoch (eta s) n X y w)"
    using gd_epoch_spec[OF al1 assms(4)] same1 by simp
  have "epoch R s g n X' y'
            = Inr (s\<lparr>w_attr := Some (fst (spec_gd_epoch (eta s) n X y w)),
                     cost_attr := Some (cs @ [snd (spec_gd_epoch (eta s) n X y w)])\<rparr>,
                   g1, X1, y1)"
    unfolding epoch_def sh using assms(1,2,3) ge
    by (simp add: case_prod_beta)
  moreover have "gd_same (eta s) n X y X1 y1" using al1 same1 by (simp add: gd_same_def)
  ultimately show ?thesis by blast
qed

lemma gd_loop:
  assumes "solver s = GD" and "w_attr s = Some w" and "cost_attr s = Some cs"
    and "length w = Suc n" and "gd_same (eta s) n X y X' y'"
    and "shuffle s \<longrightarrow> permutation_contract R"
  shows "\<exists>g'. epochs_loop R k s g n X' y'
           = Returns (s\<lparr>w_attr := Some (fst (spec_train (spec_gd_epoch (eta s) n X y) k (w, cs))),
                        cost_attr := Some (snd (spec_train (spec_gd_epoch (eta s) n X y) k (w, cs)))\<rparr>)
                     g'"
  using assms
proof (induction k arbitrary: s g X' y' w cs)
  case 0
  have "s = s\<lparr>w_attr := Some w, cost_attr := Some cs\<rparr>" using 0(2,3) by simp
  then show ?case by simp
next
  case (Suc k)
  let ?st = "spec_gd_epoch (eta s) n X y w"
  let ?s1 = "s\<lparr>w_attr := Some (fst ?st), cost_attr := Some (cs @ [snd ?st])\<rparr>"
  from gd_epoch_step[OF Suc.prems, of g] obtain g1 X1 y1 where
    e: "epoch R s g n X' y' = Inr (?s1, g1, X1, y1)"
    and same: "gd_same (eta s) n X y X1 y1" by blast
  have p: "solver ?s1 = GD" "w_attr ?s1 = Some (fst ?st)" "cost_attr ?s1 = Some (cs @ [snd ?st])"
    "length (fst ?st) = Suc n" "gd_same (eta ?s1) n X y X1 y1"
    "shuffle ?s1 \<longrightarrow> permutation_contract R"
    using Suc.prems(1,6) same by (simp_all add: length_spec_gd_epoch)
  from Suc.IH[OF p, of g1] obtain g' where
    l: "epochs_loop R k ?s1 g1 n X1 y1
          = Returns (?s1\<lparr>w_attr := Some (fst (spec_train (spec_gd_epoch (eta ?s1) n X y) k
                                                  (fst ?st, cs @ [snd ?st]))),
                          cost_attr := Some (snd (spec_train (spec_gd_epoch (eta ?s1) n X y) k
                                                  (fst ?st, cs @ [snd ?st])))\<rparr>) g'"
    by blast
  have "epochs_loop R (Suc k) s g n X' y' = epochs_loop R k ?s1 g1 n X1 y1"
    using e by simp
  then show ?case unfolding l by (simp add: case_prod_beta)
qed

lemma prepared_eta: "eta (fst (prepared R self g n y init_w)) = eta self"
  by (simp add: prepared_def validated_def init_weights_def Let_def split: prod.splits)

lemma gd_same_refl: "aligned n X y \<Longrightarrow> gd_same et n X y X y"
  by (simp add: gd_same_def)

subsection \<open>Stochastic gradient descent\<close>

lemma length_spec_sgd_weights:
  assumes "length w = Suc n" and "aligned n X y" and "i \<le> length X"
  shows "length (spec_sgd_weights et X y w i) = Suc n"
  using assms(3)
proof (induction i)
  case 0
  then show ?case using assms(1) by simp
next
  case (Suc i)
  then have "length (X ! i) = n" using aligned_row[OF assms(2), of i] by simp
  then show ?case by (simp add: Let_def)
qed

lemma sgd_update:
  fixes v x :: vec
  assumes "length x = n" and "length v = Suc n"
  shows "(v ! 0 + et * e) # map2 (+) (drop 1 v) (map (\<lambda>u. et * (u * e)) x)
           = (v ! 0 + et * e) # map (\<lambda>j. v ! Suc j + et * x ! j * e) [0..<length x]"
proof -
  have "map2 (+) (drop 1 v) (map (\<lambda>u. et * (u * e)) x)
          = map (\<lambda>j. v ! Suc j + et * x ! j * e) [0..<length x]"
    using assms by (intro nth_equalityI) (simp_all add: ac_simps)
  then show ?thesis by simp
qed

lemma sgd_samples_spec:
  assumes "length w = Suc n" and "aligned n X y" and "i \<le> length X"
  shows "sgd_samples et (Some (spec_sgd_weights et X y w i))
           (c + (\<Sum>k = 0..<i. (spec_sgd_error et X y w k)\<^sup>2 / 2)) (drop i (zip X y))
         = Inr (Some (spec_sgd_weights et X y w (length X)),
                c + (\<Sum>k = 0..<length X. (spec_sgd_error et X y w k)\<^sup>2 / 2))"
  using assms(3)
proof (induction "length X - i" arbitrary: i)
  case 0
  then have "i = length X" by simp
  then show ?case by simp
next
  case (Suc d)
  then have i: "i < length X" by simp
  have ly: "length y = length X" using assms(2) by (rule aligned_length)
  have iz: "i < length (zip X y)" using i ly by simp
  let ?v = "spec_sgd_weights et X y w i"
  let ?e = "spec_sgd_error et X y w i"
  have lx: "length (X ! i) = n" using aligned_row[OF assms(2) i] .
  have lv: "length ?v = Suc n" using length_spec_sgd_weights[OF assms(1,2)] i by simp
  have dr: "drop i (zip X y) = (X ! i, y ! i) # drop (Suc i) (zip X y)"
    using Cons_nth_drop_Suc[OF iz] iz by simp
  have ni: "net_input_vec ?v (X ! i) = Inr (spec_net_input ?v (X ! i))"
    using net_input_vec_ok[of ?v "X ! i"] dotp_weights[OF lx lv] lx lv by simp
  have up: "(?v ! 0 + et * ?e) # map2 (+) (drop 1 ?v) (map (\<lambda>u. et * (u * ?e)) (X ! i))
              = spec_sgd_weights et X y w (Suc i)"
    using sgd_update[OF lx lv, of et ?e] by (simp add: Let_def spec_sgd_error_def)
  have cost: "c + (\<Sum>k = 0..<i. (spec_sgd_error et X y w k)\<^sup>2 / 2) + ?e\<^sup>2 / 2
                = c + (\<Sum>k = 0..<Suc i. (spec_sgd_error et X y w k)\<^sup>2 / 2)"
    by simp
  have "sgd_samples et (Some ?v)
           (c + (\<Sum>k = 0..<i. (spec_sgd_error et X y w k)\<^sup>2 / 2)) (drop i (zip X y))
        = sgd_samples et (Some (spec_sgd_weights et X y w (Suc i)))
           (c + (\<Sum>k = 0..<Suc i. (spec_sgd_error et X y w k)\<^sup>2 / 2)) (drop (Suc i) (zip X y))"
    unfolding dr sgd_samples.simps option.case ni sum.case Let_def
    unfolding spec_sgd_error_def[symmetric] up cost ..
  also have "\<dots> = Inr (Some (spec_sgd_weights et X y w (length X)),
                c + (\<Sum>k = 0..<length X. (spec_sgd_error et X y w k)\<^sup>2 / 2))"
    using Suc.hyps(1)[of "Suc i"] Suc.hyps(2) i by simp
  finally show ?case .
qed

lemma sgd_epoch_spec:
  assumes "length w = Suc n" and "aligned n X y"
  shows "sgd_samples et (Some w) 0 (zip X y)
           = Inr (Some (fst (spec_sgd_epoch et X y w)), snd (spec_sgd_epoch et X y w))"
  using sgd_samples_spec[OF assms, of 0 et 0] by (simp add: spec_sgd_epoch_def)

lemma length_spec_sgd_epoch:
  assumes "length w = Suc n" and "aligned n X y"
  shows "length (fst (spec_sgd_epoch et X y w)) = Suc n"
  using length_spec_sgd_weights[OF assms, of "length X"] by (simp add: spec_sgd_epoch_def)

lemma spec_sgd_train_Suc:
  "spec_sgd_train R sh et (Suc k) g X y (w, cs) =
     (case shuffled R sh g X y of
        (X', y', g') \<Rightarrow>
          (case spec_sgd_epoch et X' y' w of
             (w', c) \<Rightarrow> spec_sgd_train R sh et k g' X' y' (w', cs @ [c])))"
  by (simp add: shuffled_def)

lemma shuffled_epoch:
  assumes "aligned n X y" and "sh \<longrightarrow> permutation_contract R"
    and "shuffled R sh g X y = (X', y', g')"
  shows "(if sh then shuffle_unison R g X y else Inr ((X, y), g)) = Inr ((X', y'), g')"
    and "aligned n X' y'"
proof -
  have "(if sh then shuffle_unison R g X y else Inr ((X, y), g)) = Inr ((X', y'), g')
        \<and> aligned n X' y'"
  proof (cases sh)
    case True
    with assms(2) have c: "permutation_contract R" by simp
    from shuffle_unison_aligned[OF c assms(1), of g] obtain r g1 where
      r: "permutation R g (length y) = (r, g1)"
      and u: "shuffle_unison R g X y = Inr ((map (\<lambda>i. X ! i) r, map (\<lambda>i. y ! i) r), g1)"
      and a: "aligned n (map (\<lambda>i. X ! i) r) (map (\<lambda>i. y ! i) r)" by blast
    from assms(3) True r have "X' = map (\<lambda>i. X ! i) r" "y' = map (\<lambda>i. y ! i) r" "g' = g1"
      by (simp_all add: shuffled_def)
    then show ?thesis using True u a by simp
  next
    case False
    then show ?thesis using assms(1,3) by (simp add: shuffled_def)
  qed
  then show "(if sh then shuffle_unison R g X y else Inr ((X, y), g)) = Inr ((X', y'), g')"
    and "aligned n X' y'" by simp_all
qed

lemma sgd_epoch_step:
  assumes "solver s = SGD" and "w_attr s = Some w" and "cost_attr s = Some cs"
    and "length w = Suc n" and "aligned n X y"
    and "shuffle s \<longrightarrow> permutation_contract R"
    and "shuffled R (shuffle s) g X y = (X', y', g')"
  shows "epoch R s g n X y
            = Inr (s\<lparr>w_attr := Some (fst (spec_sgd_epoch (eta s) X' y' w)),
                     cost_attr := Some (cs @ [snd (spec_sgd_epoch (eta s) X' y' w)])\<rparr>,
                   g', X', y')"
    and "aligned n X' y'"
proof -
  note sh = shuffled_epoch[OF assms(5,6,7)]
  show "aligned n X' y'" by (rule sh(2))
  show "epoch R s g n X y
            = Inr (s\<lparr>w_attr := Some (fst (spec_sgd_epoch (eta s) X' y' w)),
                     cost_attr := Some (cs @ [snd (spec_sgd_epoch (eta s) X' y' w)])\<rparr>,
                   g', X', y')"
    unfolding epoch_def sh(1) using assms(1,2,3) sgd_epoch_spec[OF assms(4) sh(2), of "eta s"]
    by simp
qed

lemma sgd_loop:
  assumes "solver s = SGD" and "w_attr s = Some w" and "cost_attr s = Some cs"
    and "length w = Suc n" and "aligned n X y"
    and "shuffle s \<longrightarrow> permutation_contract R"
  shows "epochs_loop R k s g n X y
           = (case spec_sgd_train R (shuffle s) (eta s) k g X y (w, cs) of
                ((w', cs'), g') \<Rightarrow> Returns (s\<lparr>w_attr := Some w', cost_attr := Some cs'\<rparr>) g')"
  using assms
proof (induction k arbitrary: s g X y w cs)
  case 0
  have "s = s\<lparr>w_attr := Some w, cost_attr := Some cs\<rparr>" using 0(2,3) by simp
  then show ?case by simp
next
  case (Suc k)
  obtain X' y' g' where sh: "shuffled R (shuffle s) g X y = (X', y', g')"
    by (cases "shuffled R (shuffle s) g X y") auto
  let ?st = "spec_sgd_epoch (eta s) X' y' w"
  let ?s1 = "s\<lparr>w_attr := Some (fst ?st), cost_attr := Some (cs @ [snd ?st])\<rparr>"
  note e = sgd_epoch_step[OF Suc.prems sh]
  have p: "solver ?s1 = SGD" "w_attr ?s1 = Some (fst ?st)"
    "cost_attr ?s1 = Some (cs @ [snd ?st])" "length (fst ?st) = Suc n" "aligned n X' y'"
    "shuffle ?s1 \<longrightarrow> permutation_contract R"
    using Suc.prems(1,6) e(2) length_spec_sgd_epoch[OF Suc.prems(4) e(2)] by simp_all
  have "epochs_loop R (Suc k) s g n X y = epochs_loop R k ?s1 g' n X' y'"
    using e(1) by simp
  also have "\<dots> = (case spec_sgd_train R (shuffle s) (eta s) k g' X' y' (fst ?st, cs @ [snd ?st]) of
                ((w', cs'), g'') \<Rightarrow> Returns (s\<lparr>w_attr := Some w', cost_attr := Some cs'\<rparr>) g'')"
    using Suc.IH[OF p, of g'] by (simp split: prod.splits)
  also have "\<dots> = (case spec_sgd_train R (shuffle s) (eta s) (Suc k) g X y (w, cs) of
                ((w', cs'), g'') \<Rightarrow> Returns (s\<lparr>w_attr := Some w', cost_attr := Some cs'\<rparr>) g'')"
    unfolding spec_sgd_train_Suc sh by (simp add: case_prod_beta)
  finally show ?case .
qed

subsection \<open>Concrete runs\<close>

lemma np_unique_demo:
  "np_unique [0, 1] = [0, 1]" "np_unique [1, 2] = [1, 2]" "np_unique [-1, 1] = [-1, 1]"
  "np_unique [-1, -1, 1, 1] = [-1, 1]"
  by (simp_all add: np_unique_def)


lemma demo_label_error_run:
  "fit demo_numpy demo_fitted 0 (Rank2 1 [[0], [1]]) [1, 2] True
     = Raises LabelDomainError (demo_fitted\<lparr>classes_attr := Some [1, 2]\<rparr>) 0"
  by (simp add: fit_def np_unique_demo demo_fitted_def Let_def)

lemma demo_ne_run:
  "fit demo_numpy (demo NormalEquation) 0 (Rank2 1 [[0], [1], [2], [3]]) [-1, -1, 1, 1] True
     = Returns ((demo NormalEquation)\<lparr>classes_attr := Some [-1, 1], thres_attr := Some 0,
                  w_attr := Some [- 6 / 5, 4 / 5], cost_attr := Some []\<rparr>) 0"
  by code_simp

lemma demo_gd_run:
  "fit demo_numpy (demo GD) 0 (Rank2 1 [[0], [1], [2], [3]]) [-1, -1, 1, 1] True
     = Returns ((demo GD)\<lparr>classes_attr := Some [-1, 1], thres_attr := Some 0,
                  w_attr := Some [- 6 / 25, 6 / 25], cost_attr := Some [2, 38 / 25]\<rparr>) 2"
  by code_simp

lemma demo_sgd_run:
  "fit demo_numpy demo_sgd 0 (Rank2 2 [[0, 1], [1, 0]]) [0, 1] True
     = Returns (demo_sgd\<lparr>classes_attr := Some [0, 1], thres_attr := Some (1 / 2),
                  w_attr := Some [73 / 160, 87 / 160, - (7 / 16)],
                  cost_attr := Some [6093 / 3200, 9 / 12800]\<rparr>) 5"
  by code_simp

lemma demo_ranf_contract: "ranf_contract demo_numpy"
  by (auto simp: ranf_contract_def demo_numpy_def)

lemma demo_permutation_contract: "permutation_contract demo_numpy"
  by (simp add: permutation_contract_def demo_numpy_def)

lemma inv_small_Some_cases:
  assumes "inv_small A = Some Z"
  shows "(\<exists>a. A = [[a]] \<and> a \<noteq> 0 \<and> Z = [[1 / a]])
       \<or> (\<exists>a b c d. A = [[a, b], [c, d]] \<and> a * d - b * c \<noteq> 0
             \<and> Z = [[d / (a * d - b * c), - b / (a * d - b * c)],
                    [- c / (a * d - b * c), a / (a * d - b * c)]])"
  using assms unfolding inv_small_def
  by (auto split: list.splits if_splits simp: Let_def)

lemma demo_linalg_inv_contract: "linalg_inv_contract demo_numpy"
proof -
  have "is_inverse A Z" if "inv_small A = Some Z" for A Z
    using inv_small_Some_cases[OF that]
  proof (elim disjE exE conjE)
    fix a assume "A = [[a]]" "a \<noteq> 0" "Z = [[1 / a]]"
    then show ?thesis
      by (simp add: is_inverse_def is_square_def np_dot_mm_def transpose_m_def identity_m_def dotp_def)
  next
    fix a b c d :: real
    assume A: "A = [[a, b], [c, d]]" and dt: "a * d - b * c \<noteq> 0"
      and Z: "Z = [[d / (a * d - b * c), - b / (a * d - b * c)],
                    [- c / (a * d - b * c), a / (a * d - b * c)]]"
    have u: "[0..<2] = [0, 1]" by (simp add: upt_rec)
    have e1: "a * d / (a * d - b * c) - b * c / (a * d - b * c) = 1"
      using dt by (simp add: diff_divide_distrib[symmetric])
    have e2: "d * a / (a * d - b * c) - b * c / (a * d - b * c) = 1"
      using e1 by (simp add: mult.commute)
    have e3: "a * d / (a * d - b * c) - c * b / (a * d - b * c) = 1"
      using e1 by (simp add: mult.commute)
    have e4: "d * a / (a * d - b * c) - c * b / (a * d - b * c) = 1"
      using e1 by (simp add: mult.commute)
    show ?thesis
      unfolding A Z
      by (simp add: is_inverse_def is_square_def np_dot_mm_def transpose_m_def identity_m_def
            dotp_def u e1 e2 e3 e4 mult.commute)
  qed
  then show ?thesis by (simp add: linalg_inv_contract_def demo_numpy_def)
qed


lemma demo_trained_reached:
  "fit demo_numpy (demo GD) 0 (Rank2 1 [[0], [1], [2], [3]]) [-1, -1, 1, 1] True
     = Returns demo_trained 2"
  unfolding demo_gd_run by (simp add: demo_def demo_trained_def)

lemma demo_trained_rejected:
  "fit demo_numpy demo_trained 2 (Rank2 1 [[0], [1], [2], [3]]) [1, 2, 1, 2] True
     = Raises LabelDomainError (demo_trained\<lparr>classes_attr := Some [1, 2]\<rparr>) 2"
  by code_simp

lemma demo_trained_continued:
  "fit demo_numpy demo_trained 2 (Rank2 1 [[0], [1], [2], [3]]) [-1, -1, 1, 1] False
     = Returns (demo_trained\<lparr>w_attr := Some [- (276 / 625), 246 / 625],
                  cost_attr := Some [758 / 625, 15698 / 15625]\<rparr>) 4"
  by code_simp

lemma demo_idle_reached:
  "fit demo_numpy ((demo GD)\<lparr>epochs := 0\<rparr>) 0 (Rank2 1 [[0], [1]]) [0, 1] True
     = Returns demo_idle 0"
  by code_simp

lemma demo_idle_stale:
  "fit demo_numpy demo_idle 0 (Rank2 3 [[0, 0, 0], [1, 1, 1]]) [0, 1] False
     = Returns demo_idle 0"
  by code_simp


subsection \<open>C1: prediction\<close>

text \<open>
  Claim C1. After a successful \<open>fit\<close> the instance holds the two training labels in
  ascending order and the threshold \<open>0\<close> when the smaller label is \<open>-1\<close>, \<open>0.5\<close>
  otherwise. On a two-dimensional array whose number of columns fits the weight vector,
  \<open>predict\<close> returns, row by row, the larger label when the net input of the row reaches
  the threshold and the smaller label otherwise; so every value it returns is one of the
  training labels.
\<close>

theorem predict_labels:
  assumes "fit R self g X y init_w = Returns s' g'"
    and "w_attr s' = Some w" and "length w = 1 + m"
  shows "\<exists>lo hi thr.
           lo < hi \<and> set y = {lo, hi} \<and> classes_attr s' = Some [lo, hi]
         \<and> thr = (if lo = -1 then 0 else 0.5) \<and> thres_attr s' = Some thr
         \<and> net_input w m Xp = Inr (map (\<lambda>row. dotp row (drop 1 w) + w ! 0) Xp)
         \<and> predict s' m Xp
             = Inr (map (\<lambda>row. if dotp row (drop 1 w) + w ! 0 \<ge> thr then hi else lo) Xp)
         \<and> set (map (\<lambda>row. if dotp row (drop 1 w) + w ! 0 \<ge> thr then hi else lo) Xp)
             \<subseteq> set y"
proof -
  from fit_returns_cases[OF assms(1)] have ok: "set y = {0, 1} \<or> set y = {-1, 1}" by blast
  then obtain lo where lo: "lo = 0 \<or> lo = -1" "set y = {lo, 1}" by auto
  then have lt: "lo < (1::real)" by auto
  have u: "np_unique y = [lo, 1]" using lo lt by (simp add: np_unique_pair)
  from fit_returns_labels[OF assms(1)] have
    cl: "classes_attr s' = Some [lo, 1]"
    and th: "thres_attr s' = Some (if lo = -1 then 0 else 0.5)"
    by (simp_all add: u)
  have ni: "net_input w m Xp = Inr (map (\<lambda>row. dotp row (drop 1 w) + w ! 0) Xp)"
    using assms(3) by (simp add: net_input_ok)
  have pr: "predict s' m Xp
      = Inr (map (\<lambda>row. if dotp row (drop 1 w) + w ! 0 \<ge> (if lo = -1 then 0 else 0.5)
                          then 1 else lo) Xp)"
  proof -
    have "predict s' m Xp =
        Inr (map (\<lambda>v. if v \<ge> (if lo = -1 then 0 else 0.5) then [lo, 1] ! 1 else [lo, 1] ! 0)
               (map (\<lambda>row. dotp row (drop 1 w) + w ! 0) Xp))"
      by (simp only: predict_def assms(2) ni cl th option.case sum.case list.size)
         simp
    then show ?thesis by (simp add: comp_def)
  qed
  have sub: "set (map (\<lambda>row. if dotp row (drop 1 w) + w ! 0 \<ge> (if lo = -1 then 0 else 0.5)
                          then 1 else lo) Xp) \<subseteq> set y"
    using lo(2) by auto
  show ?thesis
    apply (rule exI[of _ lo], rule exI[of _ 1], rule exI[of _ "if lo = -1 then 0 else 0.5"])
    using lt lo(2) cl th ni pr sub by (intro conjI) simp_all
qed

text \<open>The scenario of the specification: features \<open>[[0], [1], [2], [3]]\<close>, targets
  \<open>[-1, -1, 1, 1]\<close>, the normal equation; then \<open>predict([[0], [4]])\<close> is \<open>[-1, 1]\<close>.\<close>

theorem predict_labels_witness:
  "predict ((demo NormalEquation)\<lparr>classes_attr := Some [-1, 1], thres_attr := Some 0,
               w_attr := Some [- 6 / 5, 4 / 5], cost_attr := Some []\<rparr>) 1 [[0], [4]]
     = Inr [-1, 1]"
proof -
  let ?s = "(demo NormalEquation)\<lparr>classes_attr := Some [-1, 1], thres_attr := Some 0,
               w_attr := Some [- 6 / 5, 4 / 5], cost_attr := Some []\<rparr>"
  have w: "w_attr ?s = Some [- 6 / 5, 4 / 5]" by simp
  have l: "length [- 6 / 5, 4 / 5 :: real] = 1 + 1" by simp
  from predict_labels [OF demo_ne_run w l, of "[[0], [4]]"]
  obtain lo hi thr where c: "classes_attr ?s = Some [lo, hi]"
    and t: "thr = (if lo = -1 then 0 else 0.5)"
    and p: "predict ?s 1 [[0], [4]]
             = Inr (map (\<lambda>row. if dotp row (drop 1 [- 6 / 5, 4 / 5]) + [- 6 / 5, 4 / 5] ! 0 \<ge> thr
                                 then hi else lo) [[0], [4]])"
    by blast
  from c have "lo = -1" "hi = 1" by simp_all
  with t p show ?thesis by (simp add: dotp_def)
qed

subsection \<open>C2: the epochs of gradient descent\<close>

text \<open>
  Claim C2. With the solver gd, valid labels, valid data and weights \<open>w0\<close> of length
  \<open>1 + n\<close> when the epochs start (the initial weights, or those of an earlier fit),
  \<open>fit\<close> returns, and its weights and cost history are those of the specification's
  epoch repeated \<open>epochs\<close> times from \<open>w0\<close> and the empty history: each epoch takes every
  error with the weights of its start, adds \<open>eta\<close> times \<open>X\<^sup>T \<cdot> error\<close> to the weights
  1 to \<open>n\<close> and \<open>eta\<close> times the sum of the errors to the bias, and appends half the sum of
  the squared errors. A shuffle changes nothing here: over the reals the sums of an epoch
  do not depend on the order of the samples.
\<close>

theorem fit_gd_epochs:
  assumes "solver self = GD" and "set y = {0, 1} \<or> set y = {-1, 1}"
    and "aligned n rs y"
    and "w_attr (fst (prepared R self g n y init_w)) = Some w0" and "length w0 = 1 + n"
    and "shuffle self \<longrightarrow> permutation_contract R"
  shows "\<exists>g'. fit R self g (Rank2 n rs) y init_w
           = Returns ((fst (prepared R self g n y init_w))
                \<lparr>w_attr := Some (fst (spec_train (spec_gd_epoch (eta self) n rs y)
                                        (nat (epochs self)) (w0, []))),
                 cost_attr := Some (snd (spec_train (spec_gd_epoch (eta self) n rs y)
                                        (nat (epochs self)) (w0, [])))\<rparr>)
              g'"
proof -
  obtain s4 g3 where p: "prepared R self g n y init_w = (s4, g3)" by fastforce
  have f: "solver s4 = GD" "w_attr s4 = Some w0" "cost_attr s4 = Some []" "length w0 = Suc n"
    "gd_same (eta s4) n rs y rs y" "shuffle s4 \<longrightarrow> permutation_contract R"
    and e: "eta s4 = eta self"
    using assms p solver_prepared[of R self g n y init_w] prepared_cost[of R self g n y init_w]
      prepared_shuffle[of R self g n y init_w] prepared_eta[of R self g n y init_w]
    by (simp_all add: gd_same_refl)
  from gd_loop[OF f, of "nat (epochs self)" g3] obtain g' where
    "epochs_loop R (nat (epochs self)) s4 g3 n rs y
       = Returns (s4\<lparr>w_attr := Some (fst (spec_train (spec_gd_epoch (eta self) n rs y)
                                        (nat (epochs self)) (w0, []))),
                    cost_attr := Some (snd (spec_train (spec_gd_epoch (eta self) n rs y)
                                        (nat (epochs self)) (w0, [])))\<rparr>) g'"
    unfolding e by blast
  then show ?thesis
    unfolding fit_valid_labels[OF assms(2)] p using assms(1) by simp
qed

text \<open>Two epochs on the scenario of the specification, from zero weights, with the rate
  \<open>1/10\<close> and shuffling: what \<open>fit\<close> computes is what the specification's epochs give.\<close>

theorem fit_gd_epochs_witness:
  "spec_train (spec_gd_epoch (eta (demo GD)) 1 [[0], [1], [2], [3]] [-1, -1, 1, 1])
       (nat (epochs (demo GD))) ([0, 0], [])
     = ([- 6 / 25, 6 / 25], [2, 38 / 25])"
proof -
  let ?X = "[[0], [1], [2], [3]] :: vec list" and ?y = "[-1, -1, 1, 1] :: vec"
  let ?t = "spec_train (spec_gd_epoch (eta (demo GD)) 1 ?X ?y) (nat (epochs (demo GD))) ([0, 0], [])"
  have s: "solver (demo GD) = GD" by (simp add: demo_def)
  have l: "set ?y = {0, 1} \<or> set ?y = {-1, 1}" by simp
  have a: "aligned 1 ?X ?y" by (simp add: aligned_def)
  have w: "w_attr (fst (prepared demo_numpy (demo GD) 0 1 ?y True)) = Some [0, 0]"
    by (simp add: prepared_True init_weights_value validated_def demo_def)
  have n: "length [0, 0 :: real] = 1 + 1" by simp
  have c: "shuffle (demo GD) \<longrightarrow> permutation_contract demo_numpy"
    using demo_permutation_contract by simp
  from fit_gd_epochs [OF s l a w n c] obtain g' where
    "fit demo_numpy (demo GD) 0 (Rank2 1 ?X) ?y True
       = Returns ((fst (prepared demo_numpy (demo GD) 0 1 ?y True))
                    \<lparr>w_attr := Some (fst ?t), cost_attr := Some (snd ?t)\<rparr>) g'" by blast
  then have "(fst (prepared demo_numpy (demo GD) 0 1 ?y True))
                    \<lparr>w_attr := Some (fst ?t), cost_attr := Some (snd ?t)\<rparr>
             = (demo GD)\<lparr>classes_attr := Some [-1, 1], thres_attr := Some 0,
                  w_attr := Some [- 6 / 25, 6 / 25], cost_attr := Some [2, 38 / 25]\<rparr>"
    unfolding demo_gd_run by simp
  then have "w_attr ((fst (prepared demo_numpy (demo GD) 0 1 ?y True))
                    \<lparr>w_attr := Some (fst ?t), cost_attr := Some (snd ?t)\<rparr>)
             = Some [- 6 / 25, 6 / 25]"
    and "cost_attr ((fst (prepared demo_numpy (demo GD) 0 1 ?y True))
                    \<lparr>w_attr := Some (fst ?t), cost_attr := Some (snd ?t)\<rparr>)
             = Some [2, 38 / 25]"
    by simp_all
  then have "fst ?t = [- 6 / 25, 6 / 25]" "snd ?t = [2, 38 / 25]" by simp_all
  then show ?thesis by (simp add: prod_eq_iff)
qed

subsection \<open>C3: the epochs of stochastic gradient descent\<close>

text \<open>
  Claim C3. With the solver sgd, valid labels, valid data and weights \<open>w0\<close> of length
  \<open>1 + n\<close> when the epochs start, \<open>fit\<close> returns what the specification's training
  gives: in every epoch the samples (shuffled first, when shuffling is on) are taken in
  order, sample \<open>i\<close> takes its error with the weights as the samples before it left them,
  \<open>eta\<close> times the sample times the error is added to the weights 1 to \<open>n\<close> and \<open>eta\<close>
  times the error to the bias before the next sample, and the cost appended for the epoch
  is the sum over its samples of the halved squared errors.
\<close>

theorem fit_sgd_epochs:
  assumes "solver self = SGD" and "set y = {0, 1} \<or> set y = {-1, 1}"
    and "aligned n rs y"
    and "w_attr (fst (prepared R self g n y init_w)) = Some w0" and "length w0 = 1 + n"
    and "shuffle self \<longrightarrow> permutation_contract R"
  shows "fit R self g (Rank2 n rs) y init_w
           = (case spec_sgd_train R (shuffle self) (eta self) (nat (epochs self))
                    (snd (prepared R self g n y init_w)) rs y (w0, []) of
                ((w, cs), g') \<Rightarrow>
                  Returns ((fst (prepared R self g n y init_w))
                             \<lparr>w_attr := Some w, cost_attr := Some cs\<rparr>) g')"
proof -
  obtain s4 g3 where p: "prepared R self g n y init_w = (s4, g3)" by fastforce
  have f: "solver s4 = SGD" "w_attr s4 = Some w0" "cost_attr s4 = Some []" "length w0 = Suc n"
    "aligned n rs y" "shuffle s4 \<longrightarrow> permutation_contract R"
    and e: "eta s4 = eta self" "shuffle s4 = shuffle self"
    using assms p solver_prepared[of R self g n y init_w] prepared_cost[of R self g n y init_w]
      prepared_shuffle[of R self g n y init_w] prepared_eta[of R self g n y init_w]
    by simp_all
  show ?thesis
    unfolding fit_valid_labels[OF assms(2)] p
    using assms(1) sgd_loop[OF f, of "nat (epochs self)" g3] e by simp
qed

text \<open>Two epochs on two samples of two features, with the rate \<open>1/2\<close>, drawn initial
  weights and shuffling.\<close>

theorem fit_sgd_epochs_witness:
  "spec_sgd_train demo_numpy (shuffle demo_sgd) (eta demo_sgd) (nat (epochs demo_sgd))
       (snd (prepared demo_numpy demo_sgd 0 2 [0, 1] True)) [[0, 1], [1, 0]] [0, 1]
       ([- (1 / 2), - (9 / 20), - (2 / 5)], [])
     = (([73 / 160, 87 / 160, - (7 / 16)], [6093 / 3200, 9 / 12800]), 5)"
proof -
  let ?X = "[[0, 1], [1, 0]] :: vec list" and ?y = "[0, 1] :: vec"
  let ?w0 = "[- (1 / 2), - (9 / 20), - (2 / 5)] :: vec"
  let ?p = "prepared demo_numpy demo_sgd 0 2 ?y True"
  let ?t = "spec_sgd_train demo_numpy (shuffle demo_sgd) (eta demo_sgd) (nat (epochs demo_sgd))
              (snd ?p) ?X ?y (?w0, [])"
  have s: "solver demo_sgd = SGD" by (simp add: demo_sgd_def)
  have l: "set ?y = {0, 1} \<or> set ?y = {-1, 1}" by simp
  have a: "aligned 2 ?X ?y" by (simp add: aligned_def)
  have u: "[0..<3] = [0, 1, 2]" by (simp add: upt_rec)
  have w: "w_attr (fst ?p) = Some ?w0"
    by (simp add: prepared_True init_weights_value validated_def demo_sgd_def demo_numpy_def u)
  have n: "length ?w0 = 1 + 2" by simp
  have c: "shuffle demo_sgd \<longrightarrow> permutation_contract demo_numpy"
    using demo_permutation_contract by simp
  obtain wf cf gf where t: "?t = ((wf, cf), gf)" by (metis surj_pair)
  from fit_sgd_epochs [OF s l a w n c]
  have "fit demo_numpy demo_sgd 0 (Rank2 2 ?X) ?y True
          = Returns ((fst ?p)\<lparr>w_attr := Some wf, cost_attr := Some cf\<rparr>) gf"
    unfolding t by simp
  then have r: "(fst ?p)\<lparr>w_attr := Some wf, cost_attr := Some cf\<rparr>
             = demo_sgd\<lparr>classes_attr := Some [0, 1], thres_attr := Some (1 / 2),
                  w_attr := Some [73 / 160, 87 / 160, - (7 / 16)],
                  cost_attr := Some [6093 / 3200, 9 / 12800]\<rparr>"
    and g: "gf = 5"
    unfolding demo_sgd_run by simp_all
  from r have "w_attr ((fst ?p)\<lparr>w_attr := Some wf, cost_attr := Some cf\<rparr>)
                 = Some [73 / 160, 87 / 160, - (7 / 16)]"
    and "cost_attr ((fst ?p)\<lparr>w_attr := Some wf, cost_attr := Some cf\<rparr>)
                 = Some [6093 / 3200, 9 / 12800]"
    by simp_all
  then have "wf = [73 / 160, 87 / 160, - (7 / 16)]" "cf = [6093 / 3200, 9 / 12800]"
    by simp_all
  with t g show ?thesis by simp
qed

subsection \<open>C4: the normal equation\<close>








subsection \<open>C5: the label-domain error\<close>

text \<open>
  Claim C5. On features of rank two and any targets, \<open>fit\<close> raises the label-domain error
  exactly when the set of distinct target values is neither \<open>{0, 1}\<close> nor \<open>{-1, 1}\<close>. The
  error raised later by a solver (a singular matrix, mismatched dimensions, weights that
  are absent) is never this one, so the equivalence holds for every solver, every generator
  and both values of \<open>init_weights\<close>.
\<close>

theorem fit_label_domain_error_iff:
  "(\<exists>s g'. fit R self g (Rank2 n rs) y init_w = Raises LabelDomainError s g')
     \<longleftrightarrow> set y \<noteq> {0, 1} \<and> set y \<noteq> {-1, 1}"
proof (cases "set y = {0, 1} \<or> set y = {-1, 1}")
  case True
  then have "fit R self g (Rank2 n rs) y init_w \<noteq> Raises LabelDomainError s g'" for s g'
    by (rule fit_valid_no_label_error)
  with True show ?thesis by blast
next
  case False
  then show ?thesis by (auto simp: fit_invalid_labels)
qed

text \<open>The label sets named by the claim: \<open>{1, 2}\<close> and \<open>{0, 1, 2}\<close> are rejected, \<open>{0, 1}\<close>
  and \<open>{-1, 1}\<close> are not.\<close>

theorem fit_label_domain_error_iff_witness:
  "(\<exists>s g'. fit demo_numpy (demo SGD) 0 (Rank2 1 [[0], [1]]) [1, 2] True
              = Raises LabelDomainError s g')
   \<and> (\<exists>s g'. fit demo_numpy (demo SGD) 0 (Rank2 1 [[0], [1], [2]]) [0, 1, 2] True
              = Raises LabelDomainError s g')
   \<and> \<not> (\<exists>s g'. fit demo_numpy (demo SGD) 0 (Rank2 1 [[0], [1]]) [0, 1] True
              = Raises LabelDomainError s g')
   \<and> \<not> (\<exists>s g'. fit demo_numpy (demo SGD) 0 (Rank2 1 [[0], [1]]) [-1, 1] True
              = Raises LabelDomainError s g')"
proof -
  have a: "set [1, 2 :: real] \<noteq> {0, 1} \<and> set [1, 2 :: real] \<noteq> {-1, 1}"
    by (simp add: doubleton_eq_iff)
  have b: "set [0, 1, 2 :: real] \<noteq> {0, 1} \<and> set [0, 1, 2 :: real] \<noteq> {-1, 1}"
  proof -
    have "(2::real) \<in> set [0, 1, 2]" by simp
    moreover have "(2::real) \<notin> {0, 1}" "(2::real) \<notin> {-1, 1}" by simp_all
    ultimately show ?thesis by metis
  qed
  have c: "\<not> (set [0, 1 :: real] \<noteq> {0, 1} \<and> set [0, 1 :: real] \<noteq> {-1, 1})" by simp
  have d: "\<not> (set [-1, 1 :: real] \<noteq> {0, 1} \<and> set [-1, 1 :: real] \<noteq> {-1, 1})" by simp
  note t = fit_label_domain_error_iff [of demo_numpy "demo SGD" 0 1 _ _ True]
  have 1: "\<exists>s g'. fit demo_numpy (demo SGD) 0 (Rank2 1 [[0], [1]]) [1, 2] True
              = Raises LabelDomainError s g'"
    by (rule iffD2 [OF t a])
  have 2: "\<exists>s g'. fit demo_numpy (demo SGD) 0 (Rank2 1 [[0], [1], [2]]) [0, 1, 2] True
              = Raises LabelDomainError s g'"
    by (rule iffD2 [OF t b])
  have 3: "\<not> (\<exists>s g'. fit demo_numpy (demo SGD) 0 (Rank2 1 [[0], [1]]) [0, 1] True
              = Raises LabelDomainError s g')"
    using c iffD1 [OF t] by (rule contrapos_nn)
  have 4: "\<not> (\<exists>s g'. fit demo_numpy (demo SGD) 0 (Rank2 1 [[0], [1]]) [-1, 1] True
              = Raises LabelDomainError s g')"
    using d iffD1 [OF t] by (rule contrapos_nn)
  from 1 2 3 4 show ?thesis by (intro conjI)
qed

subsection \<open>C6: the weights before training\<close>

text \<open>
  Claim C6. When \<open>fit\<close> is called with \<open>init_weights\<close> true on features of \<open>n\<close> columns
  and the labels pass the check, the solver starts from the instance that \<open>_init_weights\<close>
  leaves, whose weight vector \<open>w0\<close> has length \<open>1 + n\<close>; with \<open>zero_init_weight\<close> it is all
  zeros, and otherwise entry \<open>i\<close> is \<open>0.2 * u - 0.5\<close> for the \<open>i\<close>-th number \<open>u\<close> that
  \<open>ranf\<close> drew, which lies in the half-open interval from 0 to 1, so that every weight lies
  in the half-open interval from \<open>-0.5\<close> to \<open>-0.3\<close>. (That the draw is uniform is a
  property of the generator, outside this model.)
\<close>

theorem init_weights_allocated:
  assumes "ranf_contract R" and "set y = {0, 1} \<or> set y = {-1, 1}"
  shows "\<exists>s3 g3 w0.
           init_weights R (validated self y) g (1 + n) = (s3, g3)
         \<and> fit R self g (Rank2 n rs) y True =
             (if solver self = NormalEquation
              then (case normal_equation R n rs y of
                      Inl e \<Rightarrow> Raises e (s3\<lparr>cost_attr := Some []\<rparr>) g3
                    | Inr w \<Rightarrow> Returns (s3\<lparr>cost_attr := Some [], w_attr := Some w\<rparr>) g3)
              else epochs_loop R (nat (epochs self)) (s3\<lparr>cost_attr := Some []\<rparr>) g3 n rs y)
         \<and> w_attr s3 = Some w0 \<and> length w0 = 1 + n
         \<and> (zero_init_weight self \<longrightarrow> w0 = replicate (1 + n) 0)
         \<and> (\<not> zero_init_weight self \<longrightarrow>
               w0 = map (\<lambda>u. 0.2 * u - 0.5) (fst (ranf R g (1 + n)))
             \<and> (\<forall>u \<in> set (fst (ranf R g (1 + n))). 0 \<le> u \<and> u < 1)
             \<and> (\<forall>x \<in> set w0. - 0.5 \<le> x \<and> x < - 0.3))"
proof -
  let ?u = "fst (ranf R g (1 + n))"
  let ?w0 = "if zero_init_weight self then replicate (1 + n) 0
             else map (\<lambda>x. 0.2 * x - 0.5) ?u"
  let ?s3 = "(validated self y)\<lparr>w_attr := Some ?w0\<rparr>"
  let ?g3 = "if zero_init_weight self then g else snd (ranf R g (1 + n))"
  have z: "zero_init_weight (validated self y) = zero_init_weight self"
    by (simp add: validated_def)
  have iw: "init_weights R (validated self y) g (1 + n) = (?s3, ?g3)"
    unfolding init_weights_value z by simp
  have u: "length ?u = 1 + n" "\<forall>u \<in> set ?u. 0 \<le> u \<and> u < 1"
    using ranf_contract_draw[OF assms(1)] by blast+
  have fit: "fit R self g (Rank2 n rs) y True =
             (if solver self = NormalEquation
              then (case normal_equation R n rs y of
                      Inl e \<Rightarrow> Raises e (?s3\<lparr>cost_attr := Some []\<rparr>) ?g3
                    | Inr w \<Rightarrow> Returns (?s3\<lparr>cost_attr := Some [], w_attr := Some w\<rparr>) ?g3)
              else epochs_loop R (nat (epochs self)) (?s3\<lparr>cost_attr := Some []\<rparr>) ?g3 n rs y)"
    unfolding fit_valid_labels[OF assms(2)] prepared_True iw by simp
  have len: "length ?w0 = 1 + n" using u(1) by simp
  have range: "- 0.5 \<le> x \<and> x < - 0.3" if "x \<in> set (map (\<lambda>x. 0.2 * x - 0.5) ?u)" for x :: real
  proof -
    from that obtain v where "v \<in> set ?u" "x = 0.2 * v - 0.5" by auto
    with u(2) show ?thesis by auto
  qed
  show ?thesis
    apply (rule exI[of _ ?s3], rule exI[of _ ?g3], rule exI[of _ ?w0])
    apply (intro conjI)
    subgoal by (rule iw)
    subgoal by (rule fit)
    subgoal by simp
    subgoal by (rule len)
    subgoal by simp
    subgoal using u(2) range by auto
    done
qed

text \<open>With the demonstration generator in state 0 the three draws are \<open>0\<close>, \<open>1/4\<close> and
  \<open>1/2\<close>.\<close>

theorem init_weights_allocated_witness:
  "\<exists>s3 g3 w0. init_weights demo_numpy (validated demo_sgd [0, 1]) 0 (1 + 2) = (s3, g3)
      \<and> w_attr s3 = Some w0 \<and> length w0 = 1 + 2 \<and> w0 = [- (1 / 2), - (9 / 20), - (2 / 5)]"
proof -
  have ok: "set [0, 1 :: real] = {0, 1} \<or> set [0, 1 :: real] = {-1, 1}" by simp
  have u: "[0..<3] = [0, 1, 2]" by (simp add: upt_rec)
  from init_weights_allocated [OF demo_ranf_contract ok, of demo_sgd 0 2 "[[0, 1], [1, 0]]"]
  obtain s3 g3 w0 where
    a: "init_weights demo_numpy (validated demo_sgd [0, 1]) 0 (1 + 2) = (s3, g3)"
    and b: "w_attr s3 = Some w0" "length w0 = 1 + 2"
    and c: "\<not> zero_init_weight demo_sgd \<longrightarrow>
               w0 = map (\<lambda>u. 0.2 * u - 0.5) (fst (ranf demo_numpy 0 (1 + 2)))"
    by blast
  have "w0 = [- (1 / 2), - (9 / 20), - (2 / 5)]"
    using c by (simp add: demo_sgd_def demo_numpy_def u)
  with a b show ?thesis by blast
qed

subsection \<open>C7: the cost history\<close>

text \<open>
  Claim C7 says that every call of \<open>fit\<close> resets the cost history. \<open>fit\<close> assigns
  \<open>self.cost_ = []\<close> after the shape check and the label check, so a call that one of them
  rejects keeps the history: the instance that two epochs of gd have trained, offered the
  targets \<open>[1, 2, 1, 2]\<close>, raises the label-domain error with its two costs still in place.
\<close>

theorem fit_rejected_keeps_cost_history:
  "fit demo_numpy (demo GD) 0 (Rank2 1 [[0], [1], [2], [3]]) [-1, -1, 1, 1] True
     = Returns demo_trained 2
   \<and> fit demo_numpy demo_trained 2 (Rank2 1 [[0], [1], [2], [3]]) [1, 2, 1, 2] True
     = Raises LabelDomainError (demo_trained\<lparr>classes_attr := Some [1, 2]\<rparr>) 2
   \<and> cost_attr (demo_trained\<lparr>classes_attr := Some [1, 2]\<rparr>) = Some [2, 38 / 25]
   \<and> cost_attr (demo_trained\<lparr>classes_attr := Some [1, 2]\<rparr>) \<noteq> Some []"
  using demo_trained_reached demo_trained_rejected by (simp add: demo_trained_def)

text \<open>
  Claim C7, amended. A call of \<open>fit\<close> that the shape check or the label check rejects
  leaves the cost history as it was. Every call that passes both resets the history to the
  empty list before it trains, whatever the history held before and whatever
  \<open>init_weights\<close> says: the outcome of the call, a result or an error of the solver alike,
  does not depend on the previous value of \<open>cost_\<close>. After a successful call the history
  has one entry per epoch for the solvers gd and sgd, that is \<open>max 0 epochs\<close> entries since
  \<open>range\<close> of a negative number is empty, and it is empty for the normal equation.
\<close>

theorem fit_cost_history:
  "fit R self g (RankOther sh) y init_w = Raises ShapeError self g
   \<and> (\<not> (set y = {0, 1} \<or> set y = {-1, 1}) \<longrightarrow>
        (\<exists>s'. fit R self g (Rank2 n rs) y init_w = Raises LabelDomainError s' g
              \<and> cost_attr s' = cost_attr self))
   \<and> (set y = {0, 1} \<or> set y = {-1, 1} \<longrightarrow>
        fit R (self\<lparr>cost_attr := c\<rparr>) g (Rank2 n rs) y init_w
          = fit R self g (Rank2 n rs) y init_w
        \<and> cost_attr (fst (prepared R self g n y init_w)) = Some []
        \<and> (\<forall>s' g'. fit R self g (Rank2 n rs) y init_w = Returns s' g' \<longrightarrow>
              (solver self = NormalEquation \<longrightarrow> cost_attr s' = Some [])
              \<and> (solver self \<noteq> NormalEquation \<longrightarrow>
                    (\<exists>cs. cost_attr s' = Some cs
                          \<and> int (length cs) = max 0 (epochs self)))))"
proof -
  have 0: "fit R self g (RankOther sh) y init_w = Raises ShapeError self g"
    by (simp add: fit_def)
  have bad: "\<exists>s'. fit R self g (Rank2 n rs) y init_w = Raises LabelDomainError s' g
                \<and> cost_attr s' = cost_attr self"
    if "\<not> (set y = {0, 1} \<or> set y = {-1, 1})"
    unfolding fit_invalid_labels[OF that] by simp
  have good: "fit R (self\<lparr>cost_attr := c\<rparr>) g (Rank2 n rs) y init_w
          = fit R self g (Rank2 n rs) y init_w
        \<and> cost_attr (fst (prepared R self g n y init_w)) = Some []
        \<and> (\<forall>s' g'. fit R self g (Rank2 n rs) y init_w = Returns s' g' \<longrightarrow>
              (solver self = NormalEquation \<longrightarrow> cost_attr s' = Some [])
              \<and> (solver self \<noteq> NormalEquation \<longrightarrow>
                    (\<exists>cs. cost_attr s' = Some cs
                          \<and> int (length cs) = max 0 (epochs self))))"
    if ok: "set y = {0, 1} \<or> set y = {-1, 1}"
  proof -
    obtain s4 g3 where p: "prepared R self g n y init_w = (s4, g3)" by fastforce
    have c4: "cost_attr s4 = Some []" using prepared_cost[of R self g n y init_w] p by simp
    have 1: "fit R (self\<lparr>cost_attr := c\<rparr>) g (Rank2 n rs) y init_w
               = fit R self g (Rank2 n rs) y init_w"
      unfolding fit_valid_labels[OF ok] prepared_cost_irrelevant p by simp
    have 2: "cost_attr s' = Some []"
      if "fit R self g (Rank2 n rs) y init_w = Returns s' g'" "solver self = NormalEquation"
      for s' g'
      using that p c4 unfolding fit_valid_labels[OF ok]
      by (auto split: sum.splits)
    have 3: "\<exists>cs. cost_attr s' = Some cs \<and> int (length cs) = max 0 (epochs self)"
      if r: "fit R self g (Rank2 n rs) y init_w = Returns s' g'"
        and ns: "solver self \<noteq> NormalEquation" for s' g'
    proof -
      have "epochs_loop R (nat (epochs self)) s4 g3 n rs y = Returns s' g'"
        using r ns p unfolding fit_valid_labels[OF ok] by simp
      from epochs_loop_fields[OF this c4] obtain cs where
        cs: "length cs = nat (epochs self)"
            "s' = s4\<lparr>w_attr := w_attr s', cost_attr := Some ([] @ cs)\<rparr>" by blast
      have "cost_attr s' = Some cs" by (subst cs(2)) simp
      moreover have "int (length cs) = max 0 (epochs self)" using cs(1) by simp
      ultimately show ?thesis by blast
    qed
    from 1 prepared_cost[of R self g n y init_w] 2 3 show ?thesis by blast
  qed
  from 0 bad good show ?thesis by blast
qed

text \<open>Two calls on the instance that gd has trained: training continued with
  \<open>init_weights\<close> false ends with two new costs, from an emptied history as from the two
  old costs; the rejected targets of above leave the old costs.\<close>

theorem fit_cost_history_witness:
  "fit demo_numpy (demo_trained\<lparr>cost_attr := Some []\<rparr>) 2
       (Rank2 1 [[0], [1], [2], [3]]) [-1, -1, 1, 1] False
     = Returns (demo_trained\<lparr>w_attr := Some [- (276 / 625), 246 / 625],
                  cost_attr := Some [758 / 625, 15698 / 15625]\<rparr>) 4
   \<and> int (length [758 / 625, 15698 / 15625 :: real]) = max 0 (epochs demo_trained)
   \<and> (\<exists>s'. fit demo_numpy demo_trained 2 (Rank2 1 [[0], [1], [2], [3]]) [1, 2, 1, 2] True
              = Raises LabelDomainError s' 2
            \<and> cost_attr s' = cost_attr demo_trained)"
proof -
  have ok: "set [-1, -1, 1, 1 :: real] = {0, 1} \<or> set [-1, -1, 1, 1 :: real] = {-1, 1}"
    by auto
  have m: "(2 :: real) \<in> set [1, 2, 1, 2]" by simp
  have bad: "\<not> (set [1, 2, 1, 2 :: real] = {0, 1} \<or> set [1, 2, 1, 2 :: real] = {-1, 1})"
  proof (rule notI, erule disjE)
    assume e: "set [1, 2, 1, 2 :: real] = {0, 1}"
    from m have "(2 :: real) \<in> {0, 1}" unfolding e .
    then show False by simp
  next
    assume e: "set [1, 2, 1, 2 :: real] = {-1, 1}"
    from m have "(2 :: real) \<in> {-1, 1}" unfolding e .
    then show False by simp
  qed
  note t = fit_cost_history [where R = demo_numpy and self = demo_trained and g = 2
      and n = 1 and rs = "[[0], [1], [2], [3]]"]
  have 1: "fit demo_numpy (demo_trained\<lparr>cost_attr := Some []\<rparr>) 2
       (Rank2 1 [[0], [1], [2], [3]]) [-1, -1, 1, 1] False
     = Returns (demo_trained\<lparr>w_attr := Some [- (276 / 625), 246 / 625],
                  cost_attr := Some [758 / 625, 15698 / 15625]\<rparr>) 4"
    using t [where y = "[-1, -1, 1, 1]" and init_w = False and c = "Some []"] ok
    unfolding demo_trained_continued by blast
  have 2: "int (length [758 / 625, 15698 / 15625 :: real]) = max 0 (epochs demo_trained)"
    by (simp add: demo_trained_def)
  have 3: "\<exists>s'. fit demo_numpy demo_trained 2 (Rank2 1 [[0], [1], [2], [3]]) [1, 2, 1, 2] True
              = Raises LabelDomainError s' 2
            \<and> cost_attr s' = cost_attr demo_trained"
    using t [where y = "[1, 2, 1, 2]" and init_w = True] bad by blast
  from 1 2 3 show ?thesis by blast
qed

subsection \<open>C8: the instance after a label-domain error\<close>

text \<open>
  Claim C8 says that a label-domain error leaves every attribute of the instance as it was.
  \<open>fit\<close> assigns \<open>self.classes_ = np.unique(y)\<close> and only then checks it, so the claim
  fails: an instance fitted on the labels \<open>{0, 1}\<close> and then offered the targets \<open>[1, 2]\<close>
  raises the error with \<open>classes_\<close> equal to \<open>[1, 2]\<close>.
\<close>

theorem fit_label_error_overwrites_classes:
  "fit demo_numpy demo_fitted 0 (Rank2 1 [[0], [1]]) [1, 2] True
     = Raises LabelDomainError (demo_fitted\<lparr>classes_attr := Some [1, 2]\<rparr>) 0
   \<and> classes_attr (demo_fitted\<lparr>classes_attr := Some [1, 2]\<rparr>) \<noteq> classes_attr demo_fitted"
  using demo_label_error_run by (simp add: demo_fitted_def)

text \<open>
  Claim C8, amended. Whenever \<open>fit\<close> raises the label-domain error, the weight vector, the
  cost history, the threshold and the hyperparameters hold the values they held before the
  call, and the generator has not been drawn from; the stored labels alone have changed,
  to the sorted distinct values of the rejected targets.
\<close>

theorem fit_label_error_state:
  assumes "fit R self g X y init_w = Raises LabelDomainError s' g'"
  shows "s' = self\<lparr>classes_attr := Some (np_unique y)\<rparr> \<and> g' = g
         \<and> w_attr s' = w_attr self \<and> cost_attr s' = cost_attr self
         \<and> thres_attr s' = thres_attr self"
proof -
  from fit_label_error_cases[OF assms] obtain n rs where
    X: "X = Rank2 n rs" and bad: "\<not> (set y = {0, 1} \<or> set y = {-1, 1})" by blast
  from fit_invalid_labels[OF bad, of R self g n rs init_w] assms X
  have "s' = self\<lparr>classes_attr := Some (np_unique y)\<rparr> \<and> g' = g" by simp
  then show ?thesis by simp
qed

theorem fit_label_error_state_witness:
  "demo_fitted\<lparr>classes_attr := Some [1, 2]\<rparr>
     = demo_fitted\<lparr>classes_attr := Some (np_unique [1, 2])\<rparr>
   \<and> w_attr (demo_fitted\<lparr>classes_attr := Some [1, 2]\<rparr>) = w_attr demo_fitted
   \<and> cost_attr (demo_fitted\<lparr>classes_attr := Some [1, 2]\<rparr>) = cost_attr demo_fitted
   \<and> thres_attr (demo_fitted\<lparr>classes_attr := Some [1, 2]\<rparr>) = thres_attr demo_fitted"
  using fit_label_error_state [OF demo_label_error_run] by simp

subsection \<open>C9: the length of the weight vector\<close>

text \<open>
  Claim C9 says that every successful \<open>fit\<close> leaves \<open>1 + n\<close> weights. With gd or sgd,
  \<open>epochs = 0\<close> and \<open>init_weights\<close> false, nothing writes the weights: \<open>fit\<close> returns with
  the weights it found. An instance with \<open>epochs = 0\<close>, fitted on one feature and then on
  three features without new initial weights, returns with its two weights.
\<close>

theorem fit_keeps_stale_weights:
  "fit demo_numpy ((demo GD)\<lparr>epochs := 0\<rparr>) 0 (Rank2 1 [[0], [1]]) [0, 1] True
     = Returns demo_idle 0
   \<and> fit demo_numpy demo_idle 0 (Rank2 3 [[0, 0, 0], [1, 1, 1]]) [0, 1] False
     = Returns demo_idle 0
   \<and> w_attr demo_idle = Some [0, 0]
   \<and> length [0, 0 :: real] \<noteq> 1 + 3"
  using demo_idle_reached demo_idle_stale by (simp add: demo_idle_def)

text \<open>
  Claim C9, amended. Take a successful \<open>fit\<close> on features of \<open>n\<close> columns under the input
  contract (rows of \<open>n\<close> entries, one target per row) and what numpy promises. If something
  writes the weights in this call, that is \<open>init_weights\<close> is true, or there is at least one
  epoch, or the solver is the normal equation, then the weight vector exists and has length
  \<open>1 + n\<close>, for the three solvers and both values of \<open>init_weights\<close>: a gd or sgd epoch
  that succeeds leaves \<open>1 + n\<close> weights whatever it started from, since \<open>np.dot\<close> refuses
  any other length. Otherwise, with gd or sgd, no epoch and \<open>init_weights\<close> false, the
  weights are the ones the instance had before the call, of whatever length, or none.
\<close>

theorem fit_weight_length:
  assumes "fit R self g (Rank2 n rs) y init_w = Returns s' g'"
    and "aligned n rs y"
    and "ranf_contract R" and "permutation_contract R" and "linalg_inv_contract R"
  shows "(init_w \<or> 0 < epochs self \<or> solver self = NormalEquation \<longrightarrow>
            (\<exists>w. w_attr s' = Some w \<and> length w = 1 + n))
       \<and> (\<not> (init_w \<or> 0 < epochs self \<or> solver self = NormalEquation) \<longrightarrow>
            w_attr s' = w_attr self)"
proof -
  from fit_returns_cases[OF assms(1)] have ok: "set y = {0, 1} \<or> set y = {-1, 1}" by simp
  obtain s4 g3 where p: "prepared R self g n y init_w = (s4, g3)" by fastforce
  have written: "\<exists>w. w_attr s' = Some w \<and> length w = 1 + n"
    if wr: "init_w \<or> 0 < epochs self \<or> solver self = NormalEquation"
  proof (cases "solver self = NormalEquation")
    case True
    from assms(1) obtain w where "normal_equation R n rs y = Inr w"
      "s' = (fst (prepared R self g n y init_w))\<lparr>w_attr := Some w\<rparr>"
      unfolding fit_normal_equation_returns[OF True] by auto
    then show ?thesis using normal_equation_length[OF _ assms(5)] by simp
  next
    case False
    then have l: "epochs_loop R (nat (epochs self)) s4 g3 n rs y = Returns s' g'"
      using assms(1) p by (simp add: fit_valid_labels[OF ok])
    show ?thesis
    proof (cases "0 < epochs self")
      case True
      then have "0 < nat (epochs self)" by simp
      from epochs_loop_weights_length[OF l this assms(2) labels_nonempty[OF ok]] assms(4)
      show ?thesis by simp
    next
      case no_epoch: False
      then have "nat (epochs self) = 0" by simp
      with l have s': "s' = s4" by simp
      from no_epoch False wr have "init_w" by simp
      then have "s4 = (fst (init_weights R (validated self y) g (1 + n)))\<lparr>cost_attr := Some []\<rparr>"
        using p by (simp add: prepared_True)
      then show ?thesis
        using init_weights_length[OF assms(3), of "validated self y" g "1 + n"] s' by auto
    qed
  qed
  have kept: "w_attr s' = w_attr self"
    if nw: "\<not> (init_w \<or> 0 < epochs self \<or> solver self = NormalEquation)"
  proof -
    from nw have i: "init_w = False" and e: "nat (epochs self) = 0"
      and s: "solver self \<noteq> NormalEquation" by simp_all
    have "epochs_loop R (nat (epochs self)) s4 g3 n rs y = Returns s' g'"
      using assms(1) p s by (simp add: fit_valid_labels[OF ok])
    then have "s' = s4" unfolding e by simp
    moreover have "s4 = (validated self y)\<lparr>cost_attr := Some []\<rparr>"
      using p unfolding i prepared_False by simp
    ultimately show ?thesis by (simp add: validated_def)
  qed
  from written kept show ?thesis by blast
qed

text \<open>Three runs: the normal equation and sgd with new initial weights, and gd continued
  from the weights of an earlier call with \<open>init_weights\<close> false.\<close>

theorem fit_weight_length_witness:
  "(\<exists>w. w_attr ((demo NormalEquation)\<lparr>classes_attr := Some [-1, 1], thres_attr := Some 0,
                  w_attr := Some [- 6 / 5, 4 / 5], cost_attr := Some []\<rparr>) = Some w
        \<and> length w = 1 + 1)
   \<and> (\<exists>w. w_attr (demo_trained\<lparr>w_attr := Some [- (276 / 625), 246 / 625],
                  cost_attr := Some [758 / 625, 15698 / 15625]\<rparr>) = Some w
        \<and> length w = 1 + 1)
   \<and> (\<exists>w. w_attr (demo_sgd\<lparr>classes_attr := Some [0, 1], thres_attr := Some (1 / 2),
                  w_attr := Some [73 / 160, 87 / 160, - (7 / 16)],
                  cost_attr := Some [6093 / 3200, 9 / 12800]\<rparr>) = Some w
        \<and> length w = 1 + 2)"
proof -
  have a1: "aligned 1 [[0], [1], [2], [3]] [-1, -1, 1, 1]" by (simp add: aligned_def)
  have a2: "aligned 2 [[0, 1], [1, 0]] [0, 1]" by (simp add: aligned_def)
  have e1: "True \<or> 0 < epochs (demo NormalEquation) \<or> solver (demo NormalEquation) = NormalEquation"
    by simp
  have e2: "False \<or> 0 < epochs demo_trained \<or> solver demo_trained = NormalEquation"
    by (simp add: demo_trained_def)
  have e3: "True \<or> 0 < epochs demo_sgd \<or> solver demo_sgd = NormalEquation" by simp
  note c = demo_ranf_contract demo_permutation_contract demo_linalg_inv_contract
  note t1 = fit_weight_length [OF demo_ne_run a1 c]
  note t2 = fit_weight_length [OF demo_trained_continued a1 c]
  note t3 = fit_weight_length [OF demo_sgd_run a2 c]
  from t1 e1 have 1: "\<exists>w. w_attr ((demo NormalEquation)\<lparr>classes_attr := Some [-1, 1],
                  thres_attr := Some 0,
                  w_attr := Some [- 6 / 5, 4 / 5], cost_attr := Some []\<rparr>) = Some w
        \<and> length w = 1 + 1" by blast
  from t2 e2 have 2: "\<exists>w. w_attr (demo_trained\<lparr>w_attr := Some [- (276 / 625), 246 / 625],
                  cost_attr := Some [758 / 625, 15698 / 15625]\<rparr>) = Some w
        \<and> length w = 1 + 1" by blast
  from t3 e3 have 3: "\<exists>w. w_attr (demo_sgd\<lparr>classes_attr := Some [0, 1],
                  thres_attr := Some (1 / 2),
                  w_attr := Some [73 / 160, 87 / 160, - (7 / 16)],
                  cost_attr := Some [6093 / 3200, 9 / 12800]\<rparr>) = Some w
        \<and> length w = 1 + 2" by blast
  from 1 2 3 show ?thesis by (intro conjI)
qed

subsection \<open>C10: the normal equation ignores the initial weights\<close>

text \<open>
  Claim C10. With the normal-equation solver the weights of a successful \<open>fit\<close> are a
  function of the features and the targets alone: any other instance with that solver
  (another value of \<open>zero_init_weight\<close>, other weights from an earlier fit, any other
  attribute), any state of the generator and either value of \<open>init_weights\<close> succeed on
  the same data with the same weights.
\<close>

theorem normal_equation_weights_independent:
  assumes "solver self = NormalEquation" and "solver self' = NormalEquation"
      and "fit R self g X y init_w = Returns s1 g1"
  shows "\<exists>s2 g2. fit R self' g' X y init_w' = Returns s2 g2 \<and> w_attr s2 = w_attr s1"
proof -
  from assms(3) obtain n rs w where X: "X = Rank2 n rs"
    and ok: "set y = {0, 1} \<or> set y = {-1, 1}"
    and w: "normal_equation R n rs y = Inr w"
    and s1: "s1 = (fst (prepared R self g n y init_w))\<lparr>w_attr := Some w\<rparr>"
    unfolding fit_normal_equation_returns[OF assms(1)] by blast
  let ?s2 = "(fst (prepared R self' g' n y init_w'))\<lparr>w_attr := Some w\<rparr>"
  have "fit R self' g' X y init_w' = Returns ?s2 (snd (prepared R self' g' n y init_w'))"
    unfolding fit_normal_equation_returns[OF assms(2)] using X ok w by blast
  moreover have "w_attr ?s2 = w_attr s1" using s1 by simp
  ultimately show ?thesis by blast
qed

text \<open>The run of the spec's scenario, repeated on an instance that draws its initial
  weights, holds three weights from elsewhere and is told to keep them.\<close>

theorem normal_equation_weights_independent_witness:
  "\<exists>s2 g2. fit demo_numpy
              ((demo NormalEquation)\<lparr>zero_init_weight := False, w_attr := Some [5, 5, 5]\<rparr>) 7
              (Rank2 1 [[0], [1], [2], [3]]) [-1, -1, 1, 1] False = Returns s2 g2
            \<and> w_attr s2 = Some [- 6 / 5, 4 / 5]"
  using normal_equation_weights_independent [OF _ _ demo_ne_run,
          of "(demo NormalEquation)\<lparr>zero_init_weight := False, w_attr := Some [5, 5, 5]\<rparr>"
             7 False]
  by (simp add: demo_def)

end
